theory Spec2Isabelle
  imports Complex_Main "HOL-Library.Product_Lexorder"
begin

section \<open>The WDL model fit of scoreWDL.py\<close>

text \<open>
  The script reads a dictionary of game statistics, aggregates it into three counters,
  turns the counters into win, draw and loss rates, fits a logistic curve per move, fits
  a cubic to the fitted parameters, and prints a normalisation. Python integers are
  modelled as \<open>int\<close>. Python floats are modelled as real numbers, with exact
  operations, everywhere but in \<open>wdl\<close>, whose result depends on the rounding of
  the floating-point operations: there the operations are parameters of the model. The
  optimiser \<open>scipy.optimize.curve_fit\<close> is a library that is not part of the
  script: it is a parameter of the model, a function that returns fitted parameters or
  raises.
\<close>

subsection \<open>Data\<close>

text \<open>A key of the input dictionary: (result, move, material, score).\<close>

type_synonym key = "string \<times> int \<times> int \<times> int"

text \<open>A key of the counters: (rescaled score, move).\<close>

type_synonym coord = "real \<times> int"

text \<open>
  A \<open>collections.Counter\<close>: its items in insertion order. A key that was never added
  reads as 0 and is not among the keys.
\<close>

type_synonym counter = "(coord \<times> int) list"

datatype error = ZeroDivisionError | RuntimeError | TypeError | ValueError

record tables =
  win :: counter
  draw :: counter
  loss :: counter

text \<open>One position of the parallel lists \<open>xs, ys, zwins, zdraws, zlosses\<close>.\<close>

record sample =
  sx :: real
  sy :: int
  zwin :: real
  zdraw :: real
  zloss :: real

type_synonym coeffs = "real \<times> real \<times> real \<times> real"

type_synonym bucket_fit = "int \<times> real \<times> real"

text \<open>\<open>curve_fit(winmodel, xdata, ydata, p0=...)\<close> and \<open>curve_fit(poly3, ms, vs)\<close>.\<close>

type_synonym winfit = "real list \<Rightarrow> real list \<Rightarrow> real \<times> real \<Rightarrow> error + real \<times> real"

type_synonym polyfit = "int list \<Rightarrow> real list \<Rightarrow> error + coeffs"

record normalization =
  pawn_value :: int
  spread :: int
  normalized_spread :: "real option"
  draw_rate_at_zero :: "real option"

subsection \<open>Counters\<close>

text \<open>\<open>c[k]\<close> on a Counter: 0 for a missing key.\<close>

fun counter_get :: "counter \<Rightarrow> coord \<Rightarrow> int" where
  "counter_get [] k = 0"
| "counter_get ((k', n) # c) k = (if k' = k then n else counter_get c k)"

text \<open>\<open>c[k] += v\<close>: an existing key is updated in place, a new key is appended.\<close>

fun counter_add :: "coord \<Rightarrow> int \<Rightarrow> counter \<Rightarrow> counter" where
  "counter_add k v [] = [(k, 0 + v)]"
| "counter_add k v ((k', n) # c) =
     (if k' = k then (k', n + v) # c else (k', n) # counter_add k v c)"

definition counter_keys :: "counter \<Rightarrow> coord list" where
  "counter_keys c = map fst c"

definition counter_values :: "counter \<Rightarrow> int list" where
  "counter_values c = map snd c"

subsection \<open>Aggregation (lines 43 to 62)\<close>

text \<open>The condition of line 47, under which an entry is skipped.\<close>

definition excluded :: "int \<Rightarrow> int \<Rightarrow> bool" where
  "excluded score move = (\<bar>score\<bar> > 400 \<or> move < 0 \<or> move > 120)"

text \<open>Line 51: \<open>score * NormalizeToPawnValue / 100\<close>, a true division.\<close>

definition rescale :: "int \<Rightarrow> int \<Rightarrow> real" where
  "rescale npv score = real_of_int (score * npv) / 100"

fun agg_step :: "int \<Rightarrow> key \<times> int \<Rightarrow> tables \<Rightarrow> tables" where
  "agg_step npv ((result, move, material, score), v) t =
     (if excluded score move then t
      else
        let sc = rescale npv score in
        if result = ''W'' then t\<lparr>win := counter_add (sc, move) v (win t)\<rparr>
        else if result = ''D'' then t\<lparr>draw := counter_add (sc, move) v (draw t)\<rparr>
        else if result = ''L'' then t\<lparr>loss := counter_add (sc, move) v (loss t)\<rparr>
        else t)"

definition empty_tables :: tables where
  "empty_tables = \<lparr>win = [], draw = [], loss = []\<rparr>"

definition aggregate :: "int \<Rightarrow> (key \<times> int) list \<Rightarrow> tables" where
  "aggregate npv inpdict = fold (agg_step npv) inpdict empty_tables"

text \<open>The sum of the counts of the input, and the three sums printed at line 61.\<close>

definition raw_total :: "(key \<times> int) list \<Rightarrow> int" where
  "raw_total inpdict = sum_list (map snd inpdict)"

definition retained_total :: "tables \<Rightarrow> int" where
  "retained_total t =
     sum_list (counter_values (win t)) + sum_list (counter_values (draw t))
       + sum_list (counter_values (loss t))"

subsection \<open>Rates (lines 65 to 73)\<close>

definition coords :: "tables \<Rightarrow> coord list" where
  "coords t =
     sort (remdups (counter_keys (win t) @ counter_keys (draw t) @ counter_keys (loss t)))"

definition total :: "tables \<Rightarrow> coord \<Rightarrow> int" where
  "total t c = counter_get (win t) c + counter_get (draw t) c + counter_get (loss t) c"

text \<open>
  One pass of the loop body. The counts are Python integers, so a zero total raises
  ZeroDivisionError at line 71.
\<close>

definition rate :: "tables \<Rightarrow> coord \<Rightarrow> error + sample" where
  "rate t c =
     (if total t c = 0 then Inl ZeroDivisionError
      else Inr \<lparr>sx = fst c, sy = snd c,
                zwin = real_of_int (counter_get (win t) c) / real_of_int (total t c),
                zdraw = real_of_int (counter_get (draw t) c) / real_of_int (total t c),
                zloss = real_of_int (counter_get (loss t) c) / real_of_int (total t c)\<rparr>)"

fun rate_loop :: "tables \<Rightarrow> coord list \<Rightarrow> error + sample list" where
  "rate_loop t [] = Inr []"
| "rate_loop t (c # cs) =
     (case rate t c of
        Inl e \<Rightarrow> Inl e
      | Inr s \<Rightarrow> (case rate_loop t cs of Inl e \<Rightarrow> Inl e | Inr ss \<Rightarrow> Inr (s # ss)))"

definition rates :: "tables \<Rightarrow> error + sample list" where
  "rates t = rate_loop t (coords t)"

subsection \<open>Model functions (lines 81 to 103)\<close>

text \<open>\<open>int(x)\<close> on a float: truncation towards zero.\<close>

definition py_int :: "real \<Rightarrow> int" where
  "py_int x = (if 0 \<le> x then \<lfloor>x\<rfloor> else \<lceil>x\<rceil>)"

definition winmodel :: "real \<Rightarrow> real \<Rightarrow> real \<Rightarrow> real" where
  "winmodel x a b = 1 / (1 + exp (- (x - a) / b))"

definition poly3 :: "int \<Rightarrow> real \<Rightarrow> coeffs \<Rightarrow> real" where
  "poly3 moveTarget x p =
     (case p of (a, b, c, d) \<Rightarrow>
        let xnp = x / real_of_int moveTarget in ((a * xnp + b) * xnp + c) * xnp + d)"

text \<open>
  The floating-point operations that \<open>wdl\<close> uses. \<open>fl\<close> is the rounding of the
  exact result of an addition, a subtraction or a multiplication to a float. \<open>fdiv\<close>
  is the division of numpy floats, which does not raise: its result is a float, an
  infinity (a non-zero number over a zero, of either sign, or an overflow) or a NaN (zero
  over zero). \<open>fexp\<close> is \<open>np.exp\<close>, with \<open>None\<close> for an overflow to infinity.
  Overflow of the other operations, which needs magnitudes near 1.8e308, is not
  represented.
\<close>

datatype quotient = Fin real | PInf | NInf | NaN

record fpu =
  fl :: "real \<Rightarrow> real"
  fdiv :: "real \<Rightarrow> real \<Rightarrow> quotient"
  fexp :: "real \<Rightarrow> real option"

text \<open>
  What the proofs use of the float64 operations: rounding is monotone and leaves 0, 1 and
  1000 as they are, \<open>np.exp\<close> is never negative, and a division by a non-zero number
  is not a NaN.
\<close>

definition ieee :: "fpu \<Rightarrow> bool" where
  "ieee fp =
     ((\<forall>x y. x \<le> y \<longrightarrow> fl fp x \<le> fl fp y) \<and> fl fp 0 = 0 \<and> fl fp 1 = 1 \<and> fl fp 1000 = 1000
        \<and> (\<forall>t e. fexp fp t = Some e \<longrightarrow> 0 \<le> e) \<and> (\<forall>n b. b \<noteq> 0 \<longrightarrow> fdiv fp n b \<noteq> NaN))"

text \<open>
  \<open>winmodel\<close> as numpy evaluates it; \<open>None\<close> is a NaN. An infinite quotient gives
  \<open>exp\<close> infinite or 0, and with it the value 0.0 or 1.0.
\<close>

definition winmodel_fl :: "fpu \<Rightarrow> real \<Rightarrow> real \<Rightarrow> real \<Rightarrow> real option" where
  "winmodel_fl fp x a b =
     (case fdiv fp (- fl fp (x - a)) b of
        NaN \<Rightarrow> None
      | PInf \<Rightarrow> Some 0
      | NInf \<Rightarrow> Some 1
      | Fin t \<Rightarrow>
          (case fexp fp t of
             None \<Rightarrow> Some 0
           | Some e \<Rightarrow> Some (fl fp (1 / fl fp (1 + e)))))"

text \<open>\<open>poly3\<close> as numpy evaluates it, for a reference move that is not 0.\<close>

definition poly3_fl :: "fpu \<Rightarrow> int \<Rightarrow> real \<Rightarrow> coeffs \<Rightarrow> real" where
  "poly3_fl fp moveTarget x p =
     (case p of (a, b, c, d) \<Rightarrow>
        let xnp = fl fp (x / real_of_int moveTarget) in
        fl fp (fl fp (fl fp (fl fp (fl fp (fl fp (a * xnp) + b) * xnp) + c) * xnp) + d))"

text \<open>
  \<open>wdl\<close>. \<open>int(...)\<close> of a NaN raises ValueError. With \<open>moveTarget = 0\<close> the
  normalised move is an infinity or a NaN, both cubics are infinite or NaN, and the
  quotient in \<open>winmodel\<close> is a NaN.
\<close>

definition wdl ::
  "fpu \<Rightarrow> int \<Rightarrow> real \<Rightarrow> int \<Rightarrow> coeffs \<Rightarrow> coeffs \<Rightarrow> error + int \<times> int \<times> int" where
  "wdl fp moveTarget score move popt_as popt_bs =
     (if moveTarget = 0 then Inl ValueError
      else
        let a = poly3_fl fp moveTarget (real_of_int move) popt_as;
            b = poly3_fl fp moveTarget (real_of_int move) popt_bs
        in case winmodel_fl fp score a b of
             None \<Rightarrow> Inl ValueError
           | Some pw \<Rightarrow>
               (case winmodel_fl fp (- score) a b of
                  None \<Rightarrow> Inl ValueError
                | Some pl \<Rightarrow>
                    let w = py_int (fl fp (1000 * pw));
                        l = py_int (fl fp (1000 * pl));
                        d = 1000 - w - l
                    in Inr (w, d, l)))"

text \<open>
  Two instances of the operations, for the examples: exact arithmetic, and rounding to the
  nearest multiple of 1/1024.
\<close>

definition exact :: fpu where
  "exact =
     \<lparr>fl = (\<lambda>x. x),
      fdiv = (\<lambda>n b. if b = 0 then (if n = 0 then NaN else if 0 < n then PInf else NInf)
                    else Fin (n / b)),
      fexp = (\<lambda>t. Some (exp t))\<rparr>"

definition coarse :: fpu where
  "coarse = exact\<lparr>fl := (\<lambda>x. real_of_int (round (x * 1024)) / 1024)\<rparr>"

subsection \<open>Fit per move (lines 134 to 161)\<close>

definition grouping :: int where
  "grouping = 1"

text \<open>\<open>range(3, 120, grouping)\<close> with \<open>grouping = 1\<close>.\<close>

definition bucket_starts :: "int list" where
  "bucket_starts = [3..119]"

text \<open>The inner loop of lines 141 to 147.\<close>

definition gather :: "int \<Rightarrow> int \<Rightarrow> sample list \<Rightarrow> sample list" where
  "gather mmin mmax samples = filter (\<lambda>s. \<not> (sy s < mmin \<or> sy s \<ge> mmax)) samples"

text \<open>
  One pass of the outer loop: \<open>Inr None\<close> when the bucket is skipped by
  \<open>continue\<close>, \<open>Inl e\<close> when \<open>curve_fit\<close> raises (nothing in the script catches
  it), \<open>Inr (Some (m, a, b))\<close> for the values appended to the three model lists.
\<close>

definition fit_bucket :: "winfit \<Rightarrow> int \<Rightarrow> sample list \<Rightarrow> int \<Rightarrow> error + bucket_fit option" where
  "fit_bucket curve_fit npv samples m =
     (let mmin = m; mmax = m + grouping; d = gather mmin mmax samples in
      if length d < 10 then Inr None
      else
        case curve_fit (map sx d) (map zwin d) (real_of_int npv, real_of_int npv / 6) of
          Inl e \<Rightarrow> Inl e
        | Inr (a, b) \<Rightarrow> Inr (Some (m, a, b)))"

fun fit_loop :: "winfit \<Rightarrow> int \<Rightarrow> sample list \<Rightarrow> int list \<Rightarrow> error + bucket_fit list" where
  "fit_loop curve_fit npv samples [] = Inr []"
| "fit_loop curve_fit npv samples (m # ms) =
     (case fit_bucket curve_fit npv samples m of
        Inl e \<Rightarrow> Inl e
      | Inr r \<Rightarrow>
          (case fit_loop curve_fit npv samples ms of
             Inl e \<Rightarrow> Inl e
           | Inr rest \<Rightarrow> Inr (case r of None \<Rightarrow> rest | Some p \<Rightarrow> p # rest)))"

subsection \<open>Trend fit and normalisation (lines 203 to 218)\<close>

text \<open>\<open>sum(popt)\<close>: Python's sum starts from 0.\<close>

definition fsum :: "coeffs \<Rightarrow> real" where
  "fsum p = (case p of (a, b, c, d) \<Rightarrow> 0 + a + b + c + d)"

text \<open>
  The four printed values. A division by zero gives a numpy infinity or NaN, which is
  not a real number: the field is \<open>None\<close> then.
\<close>

definition normalize :: "coeffs \<Rightarrow> coeffs \<Rightarrow> normalization" where
  "normalize popt_as popt_bs =
     (let fsum_a = fsum popt_as; fsum_b = fsum popt_bs in
      \<lparr>pawn_value = py_int fsum_a,
       spread = py_int fsum_b,
       normalized_spread = (if fsum_a = 0 then None else Some (fsum_b / fsum_a)),
       draw_rate_at_zero =
         (if fsum_b = 0 then None else Some (1 - 2 / (1 + exp (fsum_a / fsum_b))))\<rparr>)"

text \<open>The whole computation, from the input dictionary to the printed values.\<close>

definition run ::
  "winfit \<Rightarrow> polyfit \<Rightarrow> int \<Rightarrow> (key \<times> int) list
     \<Rightarrow> error + bucket_fit list \<times> coeffs \<times> coeffs \<times> normalization" where
  "run curve_fit_win curve_fit_poly npv inpdict =
     (case rates (aggregate npv inpdict) of
        Inl e \<Rightarrow> Inl e
      | Inr samples \<Rightarrow>
          (case fit_loop curve_fit_win npv samples bucket_starts of
             Inl e \<Rightarrow> Inl e
           | Inr model \<Rightarrow>
               (case curve_fit_poly (map fst model) (map (fst \<circ> snd) model) of
                  Inl e \<Rightarrow> Inl e
                | Inr popt_as \<Rightarrow>
                    (case curve_fit_poly (map fst model) (map (snd \<circ> snd) model) of
                       Inl e \<Rightarrow> Inl e
                     | Inr popt_bs \<Rightarrow>
                         Inr (model, popt_as, popt_bs, normalize popt_as popt_bs)))))"

subsection \<open>Auxiliary notions for the proofs\<close>

text \<open>Every count stored in the three counters is at least \<open>lo\<close>.\<close>

definition tables_lower :: "int \<Rightarrow> tables \<Rightarrow> bool" where
  "tables_lower lo t =
     ((\<forall>p\<in>set (win t). lo \<le> snd p) \<and> (\<forall>p\<in>set (draw t). lo \<le> snd p)
        \<and> (\<forall>p\<in>set (loss t). lo \<le> snd p))"

text \<open>The entries that reach one of the three counters.\<close>

definition counted :: "key \<times> int \<Rightarrow> bool" where
  "counted e =
     (case e of ((result, move, material, score), v) \<Rightarrow>
        \<not> excluded score move \<and> (result = ''W'' \<or> result = ''D'' \<or> result = ''L''))"

text \<open>The move of an input entry, and the part of a counter and of the tables at one move.\<close>

definition move_of :: "key \<times> int \<Rightarrow> int" where
  "move_of e = fst (snd (fst e))"

definition at_move :: "int \<Rightarrow> counter \<Rightarrow> counter" where
  "at_move m c = filter (\<lambda>p. snd (fst p) = m) c"

definition tables_at :: "int \<Rightarrow> tables \<Rightarrow> tables" where
  "tables_at m t = \<lparr>win = at_move m (win t), draw = at_move m (draw t), loss = at_move m (loss t)\<rparr>"

text \<open>The samples the rate loop produces when no total is zero.\<close>

definition samples_of :: "tables \<Rightarrow> sample list" where
  "samples_of t = map (\<lambda>c. projr (rate t c)) (coords t)"

text \<open>The moves that pass the filter and belong to no bucket.\<close>

definition unbucketed :: "int \<Rightarrow> bool" where
  "unbucketed m = (m = 0 \<or> m = 1 \<or> m = 2 \<or> m = 120)"

subsection \<open>Example data\<close>

text \<open>\<open>n\<close> samples at move \<open>m\<close>, at the scores 0, 1, ..., with win rate 1/2.\<close>

definition flat_samples :: "nat \<Rightarrow> int \<Rightarrow> sample list" where
  "flat_samples n m =
     map (\<lambda>i. \<lparr>sx = real i, sy = m, zwin = 1 / 2, zdraw = 0, zloss = 1 / 2\<rparr>) [0..<n]"

text \<open>
  Stand-ins for \<open>curve_fit\<close>, for the examples: a logistic fit that returns its
  initial guess, one that raises when every win rate of the bucket is 0, and a trend fit
  that returns a constant cubic.
\<close>

definition initial_guess_fit :: winfit where
  "initial_guess_fit xdata ydata p0 = Inr p0"

definition failing_on_zero :: winfit where
  "failing_on_zero xdata ydata p0 = (if sum_list ydata = 0 then Inl RuntimeError else Inr p0)"

definition constant_polyfit :: polyfit where
  "constant_polyfit ms vs = Inr (0, 0, 0, 1)"

text \<open>
  The entries of one move for the examples: ten scores from -360 to 360, each with a draw,
  with \<open>10 - i\<close> losses and, when \<open>wins\<close> is set, with \<open>i + 1\<close> wins. The
  example input has such entries, with wins, at the moves 3 to 7; the second example
  input is the same without the wins at move 3.
\<close>

definition demo_bucket :: "bool \<Rightarrow> int \<Rightarrow> (key \<times> int) list" where
  "demo_bucket wins m =
     concat (map (\<lambda>i. (if wins then [((''W'', m, 0, 80 * i - 360), i + 1)] else [])
                       @ [((''D'', m, 0, 80 * i - 360), 1), ((''L'', m, 0, 80 * i - 360), 10 - i)])
       [0..9])"

definition demo_input :: "(key \<times> int) list" where
  "demo_input = concat (map (demo_bucket True) [3..7])"

definition demo_input_no_wins :: "(key \<times> int) list" where
  "demo_input_no_wins = demo_bucket False 3 @ concat (map (demo_bucket True) [4..7])"

section \<open>The aggregation filter\<close>

lemma excluded_iff: "excluded score move \<longleftrightarrow> \<not> (\<bar>score\<bar> \<le> 400 \<and> 0 \<le> move \<and> move \<le> 120)"
  by (auto simp: excluded_def)

lemma counter_get_add_same: "counter_get (counter_add k v c) k = counter_get c k + v"
  by (induction c) auto

lemma counter_get_add_other: "k' \<noteq> k \<Longrightarrow> counter_get (counter_add k v c) k' = counter_get c k'"
  by (induction c) auto

text \<open>
  C2, as the code has it. An entry is kept exactly when \<open>|score| \<le> 400\<close> and
  \<open>0 \<le> move \<le> 120\<close>: score 400 is kept and 401 dropped, move 119 is kept and
  move -1 dropped, and move 120 is kept (the first move that is dropped is 121). An entry
  that is dropped leaves the three counters as they were; an entry that is kept adds its
  count at its rescaled coordinate, in the counter of its result.
\<close>

theorem aggregation_filter:
  "(\<not> excluded score move \<longleftrightarrow> \<bar>score\<bar> \<le> 400 \<and> 0 \<le> move \<and> move \<le> 120)
   \<and> (excluded score move \<longrightarrow> agg_step npv ((result, move, material, score), v) t = t)
   \<and> (\<not> excluded score move \<longrightarrow>
        counter_get (win (agg_step npv ((''W'', move, material, score), v) t)) (rescale npv score, move)
          = counter_get (win t) (rescale npv score, move) + v
      \<and> counter_get (draw (agg_step npv ((''D'', move, material, score), v) t)) (rescale npv score, move)
          = counter_get (draw t) (rescale npv score, move) + v
      \<and> counter_get (loss (agg_step npv ((''L'', move, material, score), v) t)) (rescale npv score, move)
          = counter_get (loss t) (rescale npv score, move) + v)"
  by (auto simp: excluded_def counter_get_add_same)

text \<open>The boundaries of C2, each read off the theorem.\<close>

theorem aggregation_filter_witness:
  "\<not> excluded 400 119 \<and> \<not> excluded (- 400) 0 \<and> \<not> excluded 0 120
   \<and> excluded 401 50 \<and> excluded 0 121 \<and> excluded 0 (- 1)
   \<and> agg_step 328 ((''W'', 121, 0, 0), 7) empty_tables = empty_tables
   \<and> counter_get (win (agg_step 328 ((''W'', 120, 0, 400), 7) empty_tables)) (rescale 328 400, 120) = 7"
  using aggregation_filter [of 400 119] aggregation_filter [of "- 400" 0]
    aggregation_filter [of 0 120] aggregation_filter [of 401 50]
    aggregation_filter [of 0 121 328 "''W''" 0 7 empty_tables] aggregation_filter [of 0 "- 1"]
    aggregation_filter [of 400 120 328 _ 0 7 empty_tables]
  by (simp add: empty_tables_def)

text \<open>
  Against C2 as it is written: an observation at move 120 is not dropped, it is counted.
\<close>

theorem move_120_retained:
  "\<not> excluded 0 120 \<and> win (aggregate 328 [((''W'', 120, 0, 0), 5)]) = [((0, 120), 5)]"
  by (simp add: excluded_def aggregate_def empty_tables_def rescale_def)

section \<open>The WDL predictor\<close>

lemma winmodel_pos: "0 < winmodel x a b"
  by (simp add: winmodel_def add_pos_pos)

lemma winmodel_less_one: "winmodel x a b < 1"
  by (simp add: winmodel_def add_pos_pos)

lemma ieee_exact: "ieee exact"
  by (simp add: ieee_def exact_def)

lemma fl_exact: "fl exact x = x"
  by (simp add: exact_def)

lemma winmodel_fl_exact: "b \<noteq> 0 \<Longrightarrow> winmodel_fl exact x a b = Some (winmodel x a b)"
  by (simp add: winmodel_fl_def exact_def winmodel_def)

lemma poly3_fl_exact: "poly3_fl exact moveTarget x p = poly3 moveTarget x p"
  by (simp add: poly3_fl_def poly3_def exact_def split: prod.splits)

lemma winmodel_fl_range:
  assumes "ieee fp" and "winmodel_fl fp x a b = Some p"
  shows "0 \<le> p \<and> p \<le> 1"
proof -
  from assms(1) have mono: "\<And>x y. x \<le> y \<Longrightarrow> fl fp x \<le> fl fp y"
    and f0: "fl fp 0 = 0" and f1: "fl fp 1 = 1"
    and e0: "\<And>t e. fexp fp t = Some e \<Longrightarrow> 0 \<le> e"
    by (auto simp: ieee_def)
  have r: "0 \<le> fl fp (1 / fl fp (1 + e)) \<and> fl fp (1 / fl fp (1 + e)) \<le> 1" if "0 \<le> e" for e
  proof -
    from that have "fl fp 1 \<le> fl fp (1 + e)"
      by (intro mono) simp
    then have s: "1 \<le> fl fp (1 + e)"
      by (simp add: f1)
    then have "0 \<le> 1 / fl fp (1 + e)" and "1 / fl fp (1 + e) \<le> 1"
      by simp_all
    then have "fl fp 0 \<le> fl fp (1 / fl fp (1 + e))" and "fl fp (1 / fl fp (1 + e)) \<le> fl fp 1"
      by (auto intro: mono)
    then show ?thesis
      by (simp add: f0 f1)
  qed
  from assms(2) show ?thesis
    by (auto simp: winmodel_fl_def split: quotient.splits option.splits dest!: e0 r)
qed

lemma scaled_range:
  assumes "ieee fp" and "0 \<le> p" and "p \<le> 1"
  shows "0 \<le> fl fp (1000 * p) \<and> fl fp (1000 * p) \<le> 1000"
proof -
  from assms(1) have mono: "\<And>x y. x \<le> y \<Longrightarrow> fl fp x \<le> fl fp y"
    and f0: "fl fp 0 = 0" and f1000: "fl fp 1000 = 1000"
    by (auto simp: ieee_def)
  from assms(2,3) have "fl fp 0 \<le> fl fp (1000 * p)" and "fl fp (1000 * p) \<le> fl fp 1000"
    by (auto intro: mono)
  then show ?thesis
    by (simp add: f0 f1000)
qed

lemma py_int_floor: "0 \<le> v \<Longrightarrow> py_int v = \<lfloor>v\<rfloor>"
  by (simp add: py_int_def)

lemma wdl_returns:
  assumes "ieee fp" and "moveTarget \<noteq> 0"
    and "poly3_fl fp moveTarget (real_of_int move) popt_bs \<noteq> 0"
  shows "\<exists>w d l. wdl fp moveTarget score move popt_as popt_bs = Inr (w, d, l)"
proof -
  let ?a = "poly3_fl fp moveTarget (real_of_int move) popt_as"
  let ?b = "poly3_fl fp moveTarget (real_of_int move) popt_bs"
  from assms(1,3) have nn: "fdiv fp n ?b \<noteq> NaN" for n
    by (simp add: ieee_def)
  have "winmodel_fl fp x ?a ?b \<noteq> None" for x
    using nn [of "- fl fp (x - ?a)"]
    by (simp add: winmodel_fl_def split: quotient.splits option.splits)
  then obtain pw pl where "winmodel_fl fp score ?a ?b = Some pw"
    and "winmodel_fl fp (- score) ?a ?b = Some pl"
    by fastforce
  with assms(2) show ?thesis
    by (simp add: wdl_def Let_def)
qed

text \<open>
  C4. Whenever \<open>wdl\<close> returns, the three integers add up to 1000 and the draw value
  is \<open>1000 - win - loss\<close>; and it does return when the reference move and the
  interpolated \<open>b\<close> are not zero.
\<close>

theorem wdl_conservation:
  "(ieee fp \<and> moveTarget \<noteq> 0 \<and> poly3_fl fp moveTarget (real_of_int move) popt_bs \<noteq> 0 \<longrightarrow>
      (\<exists>w d l. wdl fp moveTarget score move popt_as popt_bs = Inr (w, d, l)))
   \<and> (\<forall>w d l. wdl fp moveTarget score move popt_as popt_bs = Inr (w, d, l) \<longrightarrow>
        w + d + l = 1000 \<and> d = 1000 - w - l)"
proof -
  have "w + d + l = 1000 \<and> d = 1000 - w - l"
    if "wdl fp moveTarget score move popt_as popt_bs = Inr (w, d, l)" for w d l
    using that by (auto simp: wdl_def Let_def split: if_splits option.splits)
  then show ?thesis
    using wdl_returns [of fp moveTarget move popt_bs score popt_as] by blast
qed

lemma winmodel_zero: "winmodel 0 0 1 = 1 / 2"
  by (simp add: winmodel_def)

text \<open>C4 with exact operations, at score 0, move 32, with \<open>a = 0\<close> and \<open>b = 1\<close>.\<close>

theorem wdl_conservation_witness:
  "wdl exact 32 0 32 (0, 0, 0, 0) (0, 0, 0, 1) = Inr (500, 0, 500) \<and> (500::int) + 0 + 500 = 1000"
proof -
  have "wdl exact 32 0 32 (0, 0, 0, 0) (0, 0, 0, 1) = Inr (500, 0, 500)"
    by (simp add: wdl_def poly3_fl_exact poly3_def winmodel_fl_exact winmodel_zero py_int_def
        fl_exact)
  then show ?thesis
    using wdl_conservation [of exact 32 32 "(0, 0, 0, 1)" 0 "(0, 0, 0, 0)"] by simp
qed

text \<open>
  C5, as the code has it. When \<open>wdl\<close> returns, the two values of \<open>winmodel\<close>, at
  \<open>score\<close> and at \<open>- score\<close>, are floats between 0 and 1, and win and loss are
  the integer parts (floors) of the floats that 1000 times these values round to:
  \<open>int(...)\<close> truncates, it does not round to the nearest integer. Win and loss lie
  between 0 and 1000. And \<open>wdl\<close> does return when the reference move and the
  interpolated \<open>b\<close> are not zero.
\<close>

theorem wdl_truncates:
  assumes "ieee fp"
  shows "(moveTarget \<noteq> 0 \<and> poly3_fl fp moveTarget (real_of_int move) popt_bs \<noteq> 0 \<longrightarrow>
            (\<exists>w d l. wdl fp moveTarget score move popt_as popt_bs = Inr (w, d, l)))
     \<and> (\<forall>w d l. wdl fp moveTarget score move popt_as popt_bs = Inr (w, d, l) \<longrightarrow>
          (\<exists>pw pl.
             winmodel_fl fp score (poly3_fl fp moveTarget (real_of_int move) popt_as)
               (poly3_fl fp moveTarget (real_of_int move) popt_bs) = Some pw
           \<and> winmodel_fl fp (- score) (poly3_fl fp moveTarget (real_of_int move) popt_as)
               (poly3_fl fp moveTarget (real_of_int move) popt_bs) = Some pl
           \<and> 0 \<le> pw \<and> pw \<le> 1 \<and> 0 \<le> pl \<and> pl \<le> 1
           \<and> w = \<lfloor>fl fp (1000 * pw)\<rfloor> \<and> l = \<lfloor>fl fp (1000 * pl)\<rfloor>
           \<and> 0 \<le> w \<and> w \<le> 1000 \<and> 0 \<le> l \<and> l \<le> 1000))"
proof -
  let ?a = "poly3_fl fp moveTarget (real_of_int move) popt_as"
  let ?b = "poly3_fl fp moveTarget (real_of_int move) popt_bs"
  have "\<exists>pw pl. winmodel_fl fp score ?a ?b = Some pw \<and> winmodel_fl fp (- score) ?a ?b = Some pl
      \<and> 0 \<le> pw \<and> pw \<le> 1 \<and> 0 \<le> pl \<and> pl \<le> 1
      \<and> w = \<lfloor>fl fp (1000 * pw)\<rfloor> \<and> l = \<lfloor>fl fp (1000 * pl)\<rfloor>
      \<and> 0 \<le> w \<and> w \<le> 1000 \<and> 0 \<le> l \<and> l \<le> 1000"
    if r: "wdl fp moveTarget score move popt_as popt_bs = Inr (w, d, l)" for w d l
  proof -
    from r obtain pw pl where pw: "winmodel_fl fp score ?a ?b = Some pw"
      and pl: "winmodel_fl fp (- score) ?a ?b = Some pl"
      and w: "w = py_int (fl fp (1000 * pw))" and l: "l = py_int (fl fp (1000 * pl))"
      by (auto simp: wdl_def Let_def split: if_splits option.splits)
    have rw: "0 \<le> pw \<and> pw \<le> 1" and rl: "0 \<le> pl \<and> pl \<le> 1"
      using winmodel_fl_range [OF assms pw] winmodel_fl_range [OF assms pl] by simp_all
    have vw: "0 \<le> fl fp (1000 * pw) \<and> fl fp (1000 * pw) \<le> 1000"
      using rw by (intro scaled_range [OF assms]) simp_all
    have vl: "0 \<le> fl fp (1000 * pl) \<and> fl fp (1000 * pl) \<le> 1000"
      using rl by (intro scaled_range [OF assms]) simp_all
    have fw: "w = \<lfloor>fl fp (1000 * pw)\<rfloor>" and fl: "l = \<lfloor>fl fp (1000 * pl)\<rfloor>"
      using w l vw vl by (simp_all add: py_int_floor)
    have bw: "0 \<le> w \<and> w \<le> 1000"
      unfolding fw using vw by (simp add: floor_le_iff le_floor_iff)
    have bl: "0 \<le> l \<and> l \<le> 1000"
      unfolding fl using vl by (simp add: floor_le_iff le_floor_iff)
    from pw pl rw rl fw fl bw bl show ?thesis by blast
  qed
  then show ?thesis
    using wdl_returns [OF assms, of moveTarget move popt_bs score popt_as] by blast
qed

lemma exp_20_lower: "(1048576::real) \<le> exp 20"
proof -
  have "(2::real) \<le> exp 1"
    using exp_ge_add_one_self [of "1::real"] by simp
  then have "(2::real) ^ 20 \<le> exp 1 ^ 20"
    by (intro power_mono) simp_all
  also have "exp (1::real) ^ 20 = exp 20"
    using exp_of_nat_mult [of 20 "1::real"] by simp
  finally show ?thesis by simp
qed

lemma winmodel_20: "999 + 1 / 2 \<le> 1000 * winmodel 20 0 1" "1000 * winmodel 20 0 1 < 1000"
proof -
  have e: "exp (- 20 :: real) = 1 / exp 20"
    by (simp add: exp_minus inverse_eq_divide)
  have pos: "(0::real) < exp 20" by simp
  have w: "winmodel 20 0 1 = exp 20 / (exp 20 + 1)"
    using pos by (simp add: winmodel_def e field_simps)
  show "999 + 1 / 2 \<le> 1000 * winmodel 20 0 1"
    using exp_20_lower pos by (simp add: w field_simps)
  show "1000 * winmodel 20 0 1 < 1000"
    using winmodel_less_one [of 20 0 1] by simp
qed

lemma winmodel_minus_20: "0 < 1000 * winmodel (- 20) 0 1" "1000 * winmodel (- 20) 0 1 < 1 / 2"
proof -
  show "0 < 1000 * winmodel (- 20) 0 1"
    using winmodel_pos [of "- 20" 0 1] by simp
  have w: "winmodel (- 20) 0 1 = 1 / (1 + exp 20)"
    by (simp add: winmodel_def)
  show "1000 * winmodel (- 20) 0 1 < 1 / 2"
    using exp_20_lower by (simp add: w field_simps)
qed

lemma wdl_exact_20: "wdl exact 32 20 32 (0, 0, 0, 0) (0, 0, 0, 1) = Inr (999, 1, 0)"
proof -
  have f1: "\<lfloor>1000 * winmodel 20 0 1\<rfloor> = 999"
    using winmodel_20 by (simp add: floor_unique)
  have f2: "\<lfloor>1000 * winmodel (- 20) 0 1\<rfloor> = 0"
    using winmodel_minus_20 by (simp add: floor_unique)
  have p: "0 \<le> 1000 * winmodel 20 0 1" "0 \<le> 1000 * winmodel (- 20) 0 1"
    using winmodel_pos [of 20 0 1] winmodel_pos [of "- 20" 0 1] by simp_all
  show ?thesis
    using f1 f2 p
    by (simp add: wdl_def poly3_fl_exact poly3_def winmodel_fl_exact py_int_def fl_exact)
qed

text \<open>
  Against C5 as it is written: at score 20 with \<open>a = 0\<close> and \<open>b = 1\<close> the
  probability is about 0.999999998, the nearest integer to 1000 times it is 1000, and
  \<open>wdl\<close> returns 999 (the operations are exact here; at this input float64 gives the
  same integers).
\<close>

theorem wdl_not_rounded:
  "wdl exact 32 20 32 (0, 0, 0, 0) (0, 0, 0, 1) = Inr (999, 1, 0)
   \<and> round (1000 * winmodel 20 0 1) = 1000"
proof -
  have "round (1000 * winmodel 20 0 1) = 1000"
    unfolding round_def using winmodel_20 by (intro floor_unique) simp_all
  with wdl_exact_20 show ?thesis by simp
qed

lemma fl_coarse: "fl coarse x = real_of_int (round (x * 1024)) / 1024"
  by (simp add: coarse_def)

lemma fl_coarse_of_int: "fl coarse (real_of_int n) = real_of_int n"
proof -
  have "real_of_int n * 1024 = real_of_int (n * 1024)" by simp
  then have "round (real_of_int n * 1024) = n * 1024"
    by (simp only: round_of_int)
  then show ?thesis
    by (simp add: fl_coarse)
qed

lemma ieee_coarse: "ieee coarse"
proof -
  have m: "fl coarse x \<le> fl coarse y" if "x \<le> y" for x y
  proof -
    from that have "round (x * 1024) \<le> round (y * 1024)"
      by (intro round_mono) simp
    then show ?thesis
      by (simp add: fl_coarse divide_right_mono)
  qed
  have c: "fl coarse 0 = 0" "fl coarse 1 = 1" "fl coarse 1000 = 1000"
    using fl_coarse_of_int [of 0] fl_coarse_of_int [of 1] fl_coarse_of_int [of 1000]
    by simp_all
  have e: "fexp coarse t = Some (exp t)" for t
    by (simp add: coarse_def exact_def)
  have d: "fdiv coarse n b \<noteq> NaN" if "b \<noteq> 0" for n b
    using that by (simp add: coarse_def exact_def)
  show ?thesis
    unfolding ieee_def using m c e d by auto
qed

lemma coarse_near_one: "fl coarse (1 + exp (- 20)) = 1"
proof -
  have e: "exp (- 20 :: real) = 1 / exp 20"
    by (simp add: exp_minus inverse_eq_divide)
  have pos: "(0::real) < exp 20" by simp
  have small: "exp (- 20 :: real) * 1024 < 1 / 2"
    using exp_20_lower pos by (simp add: e field_simps)
  have "round ((1 + exp (- 20 :: real)) * 1024) = 1024"
  proof (rule round_unique)
    show "(1 + exp (- 20 :: real)) * 1024 - 1 / 2 < real_of_int 1024"
      using small by (simp add: algebra_simps)
    have "real_of_int 1024 \<le> (1 + e) * 1024 + 1 / 2" if "0 \<le> e" for e :: real
      using that by (simp add: algebra_simps)
    from this [of "exp (- 20)"]
    show "real_of_int 1024 \<le> (1 + exp (- 20 :: real)) * 1024 + 1 / 2"
      by simp
  qed
  then show ?thesis
    by (simp add: fl_coarse)
qed

lemma coarse_near_zero: "fl coarse (1 / fl coarse (1 + exp 20)) = 0"
proof -
  let ?s = "fl coarse (1 + exp 20)"
  have "(1 + exp (20::real)) * 1024 - 1 / 2
      < real_of_int (round ((1 + exp (20::real)) * 1024))"
    by (rule of_int_round_gt)
  then have "(1 + exp (20::real)) - 1 / 2048 < ?s"
    by (simp add: fl_coarse field_simps)
  with exp_20_lower have big: "(1048576::real) < ?s"
    by linarith
  then have "0 \<le> 1 / ?s * 1024" and "1 / ?s * 1024 < 1 / 2"
    by (simp_all add: field_simps)
  then have "round (1 / ?s * 1024) = 0"
    by (intro round_unique) simp_all
  then show ?thesis
    by (simp add: fl_coarse)
qed

lemma wdl_coarse_20: "wdl coarse 32 20 32 (0, 0, 0, 0) (0, 0, 0, 1) = Inr (1000, 0, 0)"
proof -
  have n: "fl coarse 0 = 0" "fl coarse 1 = 1" "fl coarse 20 = 20" "fl coarse (- 20) = - 20"
    "fl coarse 1000 = 1000"
    using fl_coarse_of_int [of 0] fl_coarse_of_int [of 1] fl_coarse_of_int [of 20]
      fl_coarse_of_int [of "- 20"] fl_coarse_of_int [of 1000]
    by simp_all
  have a: "poly3_fl coarse 32 32 (0, 0, 0, 0) = 0" and b: "poly3_fl coarse 32 32 (0, 0, 0, 1) = 1"
    by (simp_all add: poly3_fl_def n)
  have d: "fdiv coarse x 1 = Fin x" and e: "fexp coarse x = Some (exp x)" for x
    by (simp_all add: coarse_def exact_def)
  have pw: "winmodel_fl coarse 20 0 1 = Some 1"
    by (simp add: winmodel_fl_def n d e coarse_near_one)
  have pl: "winmodel_fl coarse (- 20) 0 1 = Some 0"
    by (simp add: winmodel_fl_def n d e coarse_near_zero)
  show ?thesis
    by (simp add: wdl_def a b pw pl n py_int_def)
qed

text \<open>
  C5 at score 20 with \<open>a = 0\<close> and \<open>b = 1\<close>: with exact operations win is 999, and
  with operations that round to the nearest multiple of 1/1024 the value of
  \<open>winmodel\<close> rounds to 1 and win is 1000.
\<close>

theorem wdl_truncates_witness:
  "wdl exact 32 20 32 (0, 0, 0, 0) (0, 0, 0, 1) = Inr (999, 1, 0)
   \<and> wdl coarse 32 20 32 (0, 0, 0, 0) (0, 0, 0, 1) = Inr (1000, 0, 0)"
  using wdl_truncates [OF ieee_exact, of 32 32 "(0, 0, 0, 1)" 20 "(0, 0, 0, 0)"]
    wdl_truncates [OF ieee_coarse, of 32 32 "(0, 0, 0, 1)" 20 "(0, 0, 0, 0)"]
    wdl_exact_20 wdl_coarse_20
  by simp

section \<open>The normalisation\<close>

lemma py_int_truncates:
  "\<bar>real_of_int (py_int x)\<bar> \<le> \<bar>x\<bar> \<and> \<bar>x\<bar> < \<bar>real_of_int (py_int x)\<bar> + 1"
proof (cases "0 \<le> x")
  case True
  then have "0 \<le> \<lfloor>x\<rfloor>" by simp
  with True show ?thesis
    unfolding py_int_def by (simp; linarith)
next
  case False
  then have "\<lceil>x\<rceil> \<le> 0" by (simp add: ceiling_le_iff)
  with False show ?thesis
    unfolding py_int_def by (simp; linarith)
qed

lemma poly3_at_target:
  "moveTarget \<noteq> 0 \<Longrightarrow> poly3 moveTarget (real_of_int moveTarget) (a, b, c, d) = a + b + c + d"
  by (simp add: poly3_def)

text \<open>
  C1, as the code has it. The printed constant and spread are \<open>int(...)\<close> of the
  sums of the coefficients, that is the sums truncated towards zero (the floor of a
  non-negative sum, the ceiling of a negative one), not rounded. The normalised spread
  and the draw rate at zero are computed from the two sums themselves, not from the two
  integers. The sum of the coefficients is the cubic at the reference move.
\<close>

theorem normalize_values:
  "pawn_value (normalize (a1, b1, c1, d1) (a2, b2, c2, d2)) = py_int (a1 + b1 + c1 + d1)
   \<and> spread (normalize (a1, b1, c1, d1) (a2, b2, c2, d2)) = py_int (a2 + b2 + c2 + d2)
   \<and> \<bar>real_of_int (py_int x)\<bar> \<le> \<bar>x\<bar> \<and> \<bar>x\<bar> < \<bar>real_of_int (py_int x)\<bar> + 1
   \<and> (0 \<le> x \<longrightarrow> py_int x = \<lfloor>x\<rfloor>) \<and> (x \<le> 0 \<longrightarrow> py_int x = \<lceil>x\<rceil>)
   \<and> (a1 + b1 + c1 + d1 \<noteq> 0 \<longrightarrow>
        normalized_spread (normalize (a1, b1, c1, d1) (a2, b2, c2, d2))
          = Some ((a2 + b2 + c2 + d2) / (a1 + b1 + c1 + d1)))
   \<and> (a2 + b2 + c2 + d2 \<noteq> 0 \<longrightarrow>
        draw_rate_at_zero (normalize (a1, b1, c1, d1) (a2, b2, c2, d2))
          = Some (1 - 2 / (1 + exp ((a1 + b1 + c1 + d1) / (a2 + b2 + c2 + d2)))))
   \<and> (moveTarget \<noteq> 0 \<longrightarrow>
        poly3 moveTarget (real_of_int moveTarget) (a1, b1, c1, d1) = a1 + b1 + c1 + d1)"
  using py_int_truncates [of x]
  by (auto simp: normalize_def fsum_def Let_def poly3_at_target py_int_def)

text \<open>
  C1 with sums 327.75 and 54.75, \<open>int\<close> at -1.5, and the cubic at move 32.
\<close>

theorem normalize_values_witness:
  "pawn_value (normalize (0, 0, 0, 1311 / 4) (0, 0, 0, 219 / 4)) = 327
   \<and> spread (normalize (0, 0, 0, 1311 / 4) (0, 0, 0, 219 / 4)) = 54
   \<and> normalized_spread (normalize (0, 0, 0, 1311 / 4) (0, 0, 0, 219 / 4)) = Some (73 / 437)
   \<and> draw_rate_at_zero (normalize (0, 0, 0, 1311 / 4) (0, 0, 0, 219 / 4))
        = Some (1 - 2 / (1 + exp (437 / 73)))
   \<and> py_int (- (3 / 2)) = - 1
   \<and> poly3 32 32 (1, 2, 3, 4) = 10"
  using normalize_values [of 0 0 0 "1311 / 4" 0 0 0 "219 / 4" "1311 / 4" 32]
    normalize_values [of 0 0 0 "1311 / 4" 0 0 0 "219 / 4" "219 / 4" 32]
    normalize_values [of 1 2 3 4 0 0 0 "219 / 4" "- (3 / 2)" 32]
  by simp

text \<open>
  Against C1 as it is written: with sums 327.75 and 54.75 the code prints 327 and 54
  where rounding gives 328 and 55, and the normalised spread is 54.75 / 327.75, not
  55 / 328.
\<close>

theorem normalize_not_rounded:
  "pawn_value (normalize (0, 0, 0, 1311 / 4) (0, 0, 0, 219 / 4)) = 327
   \<and> round (fsum (0, 0, 0, 1311 / 4)) = 328
   \<and> spread (normalize (0, 0, 0, 1311 / 4) (0, 0, 0, 219 / 4)) = 54
   \<and> round (fsum (0, 0, 0, 219 / 4)) = 55
   \<and> normalized_spread (normalize (0, 0, 0, 1311 / 4) (0, 0, 0, 219 / 4)) = Some (73 / 437)
   \<and> (73 / 437 :: real) \<noteq> 55 / 328"
  by (simp add: normalize_def fsum_def py_int_def round_def)

section \<open>Counts and rates\<close>

lemma counter_add_member:
  "p \<in> set (counter_add k v c) \<Longrightarrow> p \<in> set c \<or> (\<exists>n. p = (k, n + v) \<and> (n = 0 \<or> (k, n) \<in> set c))"
  by (induction c) (auto split: if_splits)

lemma counter_add_lower:
  assumes "0 \<le> lo" and "lo \<le> v" and "\<forall>p\<in>set c. lo \<le> snd p"
  shows "\<forall>p\<in>set (counter_add k v c). lo \<le> snd p"
proof
  fix p assume "p \<in> set (counter_add k v c)"
  then consider "p \<in> set c" | "p = (k, 0 + v)" | n where "p = (k, n + v)" "(k, n) \<in> set c"
    using counter_add_member by fastforce
  then show "lo \<le> snd p"
  proof cases
    case 1
    with assms(3) show ?thesis by simp
  next
    case 2
    with assms(2) show ?thesis by simp
  next
    case 3
    from 3(2) assms(3) have "lo \<le> n" by fastforce
    with 3(1) assms(1,2) show ?thesis by simp
  qed
qed

lemma counter_get_nonneg: "\<forall>p\<in>set c. 0 \<le> snd p \<Longrightarrow> 0 \<le> counter_get c k"
  by (induction c) auto

lemma counter_get_lower:
  "\<forall>p\<in>set c. lo \<le> snd p \<Longrightarrow> k \<in> set (counter_keys c) \<Longrightarrow> lo \<le> counter_get c k"
  by (induction c) (force simp: counter_keys_def)+

lemma agg_step_lower:
  assumes "0 \<le> lo" and "lo \<le> snd e" and "tables_lower lo t"
  shows "tables_lower lo (agg_step npv e t)"
proof -
  obtain result move material score v where e: "e = ((result, move, material, score), v)"
    by (metis prod.exhaust)
  from assms(2) e have v: "lo \<le> v" by simp
  have add: "\<forall>p\<in>set (counter_add k v c). lo \<le> snd p" if "\<forall>p\<in>set c. lo \<le> snd p" for k c
    using counter_add_lower [OF assms(1) v that] .
  from assms(3) have "\<forall>p\<in>set (win t). lo \<le> snd p" "\<forall>p\<in>set (draw t). lo \<le> snd p"
    "\<forall>p\<in>set (loss t). lo \<le> snd p"
    by (simp_all add: tables_lower_def)
  then show ?thesis
    unfolding e tables_lower_def by (simp add: Let_def add)
qed

lemma fold_agg_step_lower:
  "0 \<le> lo \<Longrightarrow> \<forall>e\<in>set inpdict. lo \<le> snd e \<Longrightarrow> tables_lower lo t \<Longrightarrow>
     tables_lower lo (fold (agg_step npv) inpdict t)"
  by (induction inpdict arbitrary: t) (simp_all add: agg_step_lower)

lemma aggregate_lower:
  "0 \<le> lo \<Longrightarrow> \<forall>e\<in>set inpdict. lo \<le> snd e \<Longrightarrow> tables_lower lo (aggregate npv inpdict)"
  unfolding aggregate_def
  by (rule fold_agg_step_lower) (simp_all add: tables_lower_def empty_tables_def)

lemma total_nonneg: "tables_lower 0 t \<Longrightarrow> 0 \<le> total t c"
  by (simp add: tables_lower_def total_def counter_get_nonneg)

lemma total_positive:
  assumes "tables_lower 1 t" and "c \<in> set (coords t)"
  shows "1 \<le> total t c"
proof -
  have nn: "0 \<le> counter_get (win t) c" "0 \<le> counter_get (draw t) c"
    "0 \<le> counter_get (loss t) c"
    using assms(1) by (auto simp: tables_lower_def intro!: counter_get_nonneg)
  from assms(2) consider "c \<in> set (counter_keys (win t))" | "c \<in> set (counter_keys (draw t))"
    | "c \<in> set (counter_keys (loss t))"
    by (auto simp: coords_def)
  then show ?thesis
  proof cases
    case 1
    then have "1 \<le> counter_get (win t) c"
      using assms(1) by (simp add: tables_lower_def counter_get_lower)
    with nn show ?thesis by (simp add: total_def)
  next
    case 2
    then have "1 \<le> counter_get (draw t) c"
      using assms(1) by (simp add: tables_lower_def counter_get_lower)
    with nn show ?thesis by (simp add: total_def)
  next
    case 3
    then have "1 \<le> counter_get (loss t) c"
      using assms(1) by (simp add: tables_lower_def counter_get_lower)
    with nn show ?thesis by (simp add: total_def)
  qed
qed

lemma rate_loop_ok:
  "\<forall>c\<in>set cs. total t c \<noteq> 0 \<Longrightarrow>
     rate_loop t cs = Inr (map (\<lambda>c. projr (rate t c)) cs)"
  by (induction cs) (auto simp: rate_def)

lemma rate_loop_zero:
  "c \<in> set cs \<Longrightarrow> total t c = 0 \<Longrightarrow> rate_loop t cs = Inl ZeroDivisionError"
  by (induction cs) (auto simp: rate_def split: sum.splits)

lemma rate_loop_Inr:
  "rate_loop t cs = Inr ss \<Longrightarrow>
     (\<forall>c\<in>set cs. total t c \<noteq> 0) \<and> ss = map (\<lambda>c. projr (rate t c)) cs"
  by (induction cs arbitrary: ss) (auto simp: rate_def split: sum.splits if_splits)

lemma rate_sound:
  assumes "tables_lower 0 t" and "1 \<le> total t c"
  shows "\<exists>s. rate t c = Inr s \<and> sx s = fst c \<and> sy s = snd c
     \<and> zwin s + zdraw s + zloss s = 1
     \<and> 0 \<le> zwin s \<and> zwin s \<le> 1 \<and> 0 \<le> zdraw s \<and> zdraw s \<le> 1
     \<and> 0 \<le> zloss s \<and> zloss s \<le> 1"
proof -
  have nn: "0 \<le> counter_get (win t) c" "0 \<le> counter_get (draw t) c"
    "0 \<le> counter_get (loss t) c"
    using assms(1) by (auto simp: tables_lower_def intro!: counter_get_nonneg)
  have le: "counter_get (win t) c \<le> total t c" "counter_get (draw t) c \<le> total t c"
    "counter_get (loss t) c \<le> total t c"
    using nn by (simp_all add: total_def)
  have pos: "0 < real_of_int (total t c)"
    using assms(2) by simp
  have sum: "real_of_int (counter_get (win t) c) + real_of_int (counter_get (draw t) c)
      + real_of_int (counter_get (loss t) c) = real_of_int (total t c)"
    by (simp add: total_def)
  have "real_of_int (counter_get (win t) c) / real_of_int (total t c)
      + real_of_int (counter_get (draw t) c) / real_of_int (total t c)
      + real_of_int (counter_get (loss t) c) / real_of_int (total t c) = 1"
    using pos sum by (simp add: add_divide_distrib [symmetric])
  then show ?thesis
    using assms(2) nn le pos by (simp add: rate_def)
qed

text \<open>
  C7. With counts that are not negative, at every coordinate whose total is at least 1
  the three rates are computed, add up to exactly 1 and lie between 0 and 1; and when the
  rate loop completes, this holds for every sample it produced, one per coordinate.
\<close>

theorem rates_sum_to_one:
  assumes "\<forall>e\<in>set inpdict. 0 \<le> snd e"
  shows "(\<forall>c. 1 \<le> total (aggregate npv inpdict) c \<longrightarrow>
            (\<exists>s. rate (aggregate npv inpdict) c = Inr s
               \<and> zwin s + zdraw s + zloss s = 1
               \<and> 0 \<le> zwin s \<and> zwin s \<le> 1 \<and> 0 \<le> zdraw s \<and> zdraw s \<le> 1
               \<and> 0 \<le> zloss s \<and> zloss s \<le> 1))
     \<and> (\<forall>ss. rates (aggregate npv inpdict) = Inr ss \<longrightarrow>
            length ss = length (coords (aggregate npv inpdict))
          \<and> (\<forall>s\<in>set ss. zwin s + zdraw s + zloss s = 1
               \<and> 0 \<le> zwin s \<and> zwin s \<le> 1 \<and> 0 \<le> zdraw s \<and> zdraw s \<le> 1
               \<and> 0 \<le> zloss s \<and> zloss s \<le> 1))"
proof -
  let ?t = "aggregate npv inpdict"
  have low: "tables_lower 0 ?t"
    using assms by (simp add: aggregate_lower)
  have one: "\<exists>s. rate ?t c = Inr s \<and> zwin s + zdraw s + zloss s = 1
       \<and> 0 \<le> zwin s \<and> zwin s \<le> 1 \<and> 0 \<le> zdraw s \<and> zdraw s \<le> 1
       \<and> 0 \<le> zloss s \<and> zloss s \<le> 1" if "1 \<le> total ?t c" for c
    using rate_sound [OF low that] by blast
  have all: "length ss = length (coords ?t) \<and> (\<forall>s\<in>set ss. zwin s + zdraw s + zloss s = 1
       \<and> 0 \<le> zwin s \<and> zwin s \<le> 1 \<and> 0 \<le> zdraw s \<and> zdraw s \<le> 1
       \<and> 0 \<le> zloss s \<and> zloss s \<le> 1)" if r: "rates ?t = Inr ss" for ss
  proof -
    from r have nz: "\<forall>c\<in>set (coords ?t). total ?t c \<noteq> 0"
      and ss: "ss = map (\<lambda>c. projr (rate ?t c)) (coords ?t)"
      using rate_loop_Inr [of ?t "coords ?t" ss] by (simp_all add: rates_def)
    have "zwin s + zdraw s + zloss s = 1
       \<and> 0 \<le> zwin s \<and> zwin s \<le> 1 \<and> 0 \<le> zdraw s \<and> zdraw s \<le> 1
       \<and> 0 \<le> zloss s \<and> zloss s \<le> 1" if "s \<in> set ss" for s
    proof -
      from that ss obtain c where c: "c \<in> set (coords ?t)" and s: "s = projr (rate ?t c)"
        by auto
      have "1 \<le> total ?t c"
        using nz c total_nonneg [OF low, of c] by force
      from one [OF this] s show ?thesis by auto
    qed
    with ss show ?thesis by simp
  qed
  from one all show ?thesis by blast
qed

text \<open>
  C3, as the code has it. When every count of the input is at least 1, the total at every
  coordinate of the union is at least 1 and the rate loop completes. The script asserts
  nothing: when some coordinate of the union has total 0, the division of line 71 raises
  ZeroDivisionError and the run ends there; no NaN is produced.
\<close>

theorem total_at_least_one:
  "((\<forall>e\<in>set inpdict. 1 \<le> snd e) \<longrightarrow>
      (\<forall>c\<in>set (coords (aggregate npv inpdict)). 1 \<le> total (aggregate npv inpdict) c)
      \<and> rates (aggregate npv inpdict)
          = Inr (map (\<lambda>c. projr (rate (aggregate npv inpdict) c)) (coords (aggregate npv inpdict))))
   \<and> ((\<exists>c\<in>set (coords t). total t c = 0) \<longrightarrow> rates t = Inl ZeroDivisionError)"
proof -
  have a: "(\<forall>c\<in>set (coords (aggregate npv inpdict)). 1 \<le> total (aggregate npv inpdict) c)
      \<and> rates (aggregate npv inpdict)
          = Inr (map (\<lambda>c. projr (rate (aggregate npv inpdict) c)) (coords (aggregate npv inpdict)))"
    if pos: "\<forall>e\<in>set inpdict. 1 \<le> snd e"
  proof -
    have low: "tables_lower 1 (aggregate npv inpdict)"
      using pos by (simp add: aggregate_lower)
    then have ge: "\<forall>c\<in>set (coords (aggregate npv inpdict)). 1 \<le> total (aggregate npv inpdict) c"
      using total_positive by blast
    then have "\<forall>c\<in>set (coords (aggregate npv inpdict)). total (aggregate npv inpdict) c \<noteq> 0"
      by fastforce
    then show ?thesis
      using ge by (simp add: rates_def rate_loop_ok)
  qed
  have b: "rates t = Inl ZeroDivisionError" if "\<exists>c\<in>set (coords t). total t c = 0"
    using that by (auto simp: rates_def intro: rate_loop_zero)
  from a b show ?thesis by blast
qed

text \<open>
  Against C3 as it is written: an entry with count 0 puts its coordinate into the union
  with total 0.
\<close>

theorem zero_count_total:
  "(0, 10) \<in> set (coords (aggregate 328 [((''W'', 10, 0, 0), 0)]))
   \<and> total (aggregate 328 [((''W'', 10, 0, 0), 0)]) (0, 10) = 0
   \<and> rates (aggregate 328 [((''W'', 10, 0, 0), 0)]) = Inl ZeroDivisionError"
  by (simp add: aggregate_def empty_tables_def excluded_def rescale_def coords_def
      counter_keys_def total_def rates_def rate_def)

text \<open>
  C3 on two entries at one coordinate, and on a single entry with count 0.
\<close>

theorem total_at_least_one_witness:
  "total (aggregate 328 [((''W'', 10, 0, 0), 3), ((''L'', 10, 5, 0), 2)]) (0, 10) = 5
   \<and> rates (aggregate 328 [((''W'', 10, 0, 0), 3), ((''L'', 10, 5, 0), 2)])
       = Inr [\<lparr>sx = 0, sy = 10, zwin = 3 / 5, zdraw = 0, zloss = 2 / 5\<rparr>]
   \<and> rates (aggregate 328 [((''D'', 10, 0, 0), 0)]) = Inl ZeroDivisionError"
  using total_at_least_one [of "[((''W'', 10, 0, 0), 3), ((''L'', 10, 5, 0), 2)]" 328
      "aggregate 328 [((''D'', 10, 0, 0), 0)]"]
  by (simp add: aggregate_def empty_tables_def excluded_def rescale_def coords_def
      counter_keys_def total_def rate_def)

text \<open>
  C7 on two entries at one coordinate: the rates are 3/5, 0 and 2/5.
\<close>

theorem rates_sum_to_one_witness:
  "rate (aggregate 328 [((''W'', 10, 0, 0), 3), ((''L'', 10, 5, 0), 2)]) (0, 10)
     = Inr \<lparr>sx = 0, sy = 10, zwin = 3 / 5, zdraw = 0, zloss = 2 / 5\<rparr>
   \<and> (3 / 5 + 0 + 2 / 5 :: real) = 1"
  using rates_sum_to_one [of "[((''W'', 10, 0, 0), 3), ((''L'', 10, 5, 0), 2)]" 328]
  by (simp add: aggregate_def empty_tables_def excluded_def rescale_def
      total_def rate_def)

section \<open>Retained and raw counts\<close>

lemma sum_counter_add:
  "sum_list (counter_values (counter_add k v c)) = sum_list (counter_values c) + v"
  by (induction c) (auto simp: counter_values_def)

lemma retained_total_agg_step:
  "retained_total (agg_step npv e t) = retained_total t + (if counted e then snd e else 0)"
proof -
  obtain result move material score v where e: "e = ((result, move, material, score), v)"
    by (metis prod.exhaust)
  show ?thesis
    unfolding e by (simp add: retained_total_def counted_def Let_def sum_counter_add)
qed

lemma retained_total_fold:
  "retained_total (fold (agg_step npv) inpdict t)
     = retained_total t + sum_list (map snd (filter counted inpdict))"
  by (induction inpdict arbitrary: t) (simp_all add: retained_total_agg_step)

lemma retained_total_aggregate:
  "retained_total (aggregate npv inpdict) = sum_list (map snd (filter counted inpdict))"
  unfolding aggregate_def retained_total_fold
  by (simp add: retained_total_def empty_tables_def counter_values_def)

lemma sum_filter_le:
  fixes xs :: "('a \<times> int) list"
  assumes "\<forall>e\<in>set xs. 0 \<le> snd e"
  shows "sum_list (map snd (filter P xs)) \<le> sum_list (map snd xs)"
  using assms by (induction xs) auto

lemma sum_filter_eq_iff:
  fixes xs :: "('a \<times> int) list"
  assumes "\<forall>e\<in>set xs. 0 \<le> snd e"
  shows "sum_list (map snd (filter P xs)) = sum_list (map snd xs)
     \<longleftrightarrow> (\<forall>e\<in>set xs. snd e = 0 \<or> P e)"
  using assms
proof (induction xs)
  case Nil
  then show ?case by simp
next
  case (Cons x xs)
  then have nn: "\<forall>e\<in>set xs. 0 \<le> snd e" and x: "0 \<le> snd x"
    by simp_all
  have le: "sum_list (map snd (filter P xs)) \<le> sum_list (map snd xs)"
    using nn by (rule sum_filter_le)
  have ih: "sum_list (map snd (filter P xs)) = sum_list (map snd xs)
     \<longleftrightarrow> (\<forall>e\<in>set xs. snd e = 0 \<or> P e)"
    using Cons.IH nn by blast
  show ?case
  proof (cases "P x")
    case True
    with ih show ?thesis by simp
  next
    case False
    show ?thesis
    proof (cases "snd x = 0")
      case True
      with False ih show ?thesis by simp
    next
      case nz: False
      with x have "0 < snd x" by simp
      with le have "sum_list (map snd (filter P xs)) \<noteq> snd x + sum_list (map snd xs)"
        by linarith
      with False nz show ?thesis by simp
    qed
  qed
qed

text \<open>
  C8, as the code has it. With counts that are not negative, the retained total (the sum
  of the three numbers printed at line 61) is at most the raw total, and the two are equal
  exactly when every entry with a non-zero count is within the score and move bounds and
  has result W, D or L. An entry outside the bounds with count 0 does not break the
  equality.
\<close>

theorem filtering_monotonic:
  assumes "\<forall>e\<in>set inpdict. 0 \<le> snd e"
  shows "retained_total (aggregate npv inpdict) \<le> raw_total inpdict
     \<and> (retained_total (aggregate npv inpdict) = raw_total inpdict \<longleftrightarrow>
          (\<forall>e\<in>set inpdict. case e of ((result, move, material, score), v) \<Rightarrow>
             v = 0 \<or> (\<not> excluded score move
                       \<and> (result = ''W'' \<or> result = ''D'' \<or> result = ''L''))))"
proof -
  have c: "(snd e = 0 \<or> counted e) =
      (case e of ((result, move, material, score), v) \<Rightarrow>
         v = 0 \<or> (\<not> excluded score move \<and> (result = ''W'' \<or> result = ''D'' \<or> result = ''L'')))"
    for e :: "key \<times> int"
    by (cases e) (auto simp: counted_def)
  show ?thesis
    using sum_filter_le [OF assms, of counted] sum_filter_eq_iff [OF assms, of counted]
    by (simp add: retained_total_aggregate raw_total_def c)
qed

text \<open>
  C8 on an input within the bounds (5 of 5 retained) and on one with score 401 (3 of 5).
\<close>

theorem filtering_monotonic_witness:
  "retained_total (aggregate 328 [((''W'', 10, 0, 0), 3), ((''D'', 10, 0, 400), 2)]) = 5
   \<and> raw_total [((''W'', 10, 0, 0), 3), ((''D'', 10, 0, 400), 2)] = 5
   \<and> retained_total (aggregate 328 [((''W'', 10, 0, 0), 3), ((''D'', 10, 0, 401), 2)]) = 3
   \<and> raw_total [((''W'', 10, 0, 0), 3), ((''D'', 10, 0, 401), 2)] = 5"
  using filtering_monotonic [of "[((''W'', 10, 0, 0), 3), ((''D'', 10, 0, 400), 2)]" 328]
    filtering_monotonic [of "[((''W'', 10, 0, 0), 3), ((''D'', 10, 0, 401), 2)]" 328]
  by (simp add: aggregate_def empty_tables_def excluded_def rescale_def retained_total_def
      raw_total_def counter_values_def)

text \<open>
  Against C8 as it is written: the second entry violates the score bound, and the
  retained total still equals the raw total, its count being 0.
\<close>

theorem zero_count_violation:
  "retained_total (aggregate 328 [((''W'', 10, 0, 0), 3), ((''W'', 10, 0, 500), 0)])
     = raw_total [((''W'', 10, 0, 0), 3), ((''W'', 10, 0, 500), 0)]
   \<and> excluded 500 10"
  by (simp add: aggregate_def empty_tables_def excluded_def rescale_def retained_total_def
      raw_total_def counter_values_def)

section \<open>The fit per move\<close>

lemma gather_move: "gather m (m + grouping) samples = filter (\<lambda>s. sy s = m) samples"
  unfolding gather_def grouping_def by (rule filter_cong) auto

lemma fit_loop_moves:
  "fit_loop curve_fit npv samples ms = Inr model \<Longrightarrow>
     map fst model = filter (\<lambda>m. 10 \<le> length (gather m (m + grouping) samples)) ms"
proof (induction ms arbitrary: model)
  case Nil
  then show ?case by simp
next
  case (Cons m ms)
  from Cons.prems obtain r rest where r: "fit_bucket curve_fit npv samples m = Inr r"
    and rest: "fit_loop curve_fit npv samples ms = Inr rest"
    and model: "model = (case r of None \<Rightarrow> rest | Some p \<Rightarrow> p # rest)"
    by (auto split: sum.splits)
  have ih: "map fst rest = filter (\<lambda>m. 10 \<le> length (gather m (m + grouping) samples)) ms"
    using Cons.IH rest by simp
  show ?case
  proof (cases "length (gather m (m + grouping) samples) < 10")
    case True
    with r have "r = None"
      by (simp add: fit_bucket_def Let_def)
    with True ih model show ?thesis by simp
  next
    case False
    with r obtain a b where "r = Some (m, a, b)"
      by (auto simp: fit_bucket_def Let_def split: sum.splits)
    with False ih model show ?thesis by simp
  qed
qed

lemma fit_loop_all_skipped:
  "\<forall>m\<in>set ms. length (gather m (m + grouping) samples) \<le> 9 \<Longrightarrow>
     fit_loop curve_fit npv samples ms = Inr []"
  by (induction ms) (simp_all add: fit_bucket_def Let_def)

text \<open>
  C6. A bucket gathers the samples of its move. With 9 samples or fewer the pass returns
  without a result whatever \<open>curve_fit\<close> would do, so no fit is attempted and no
  error arises; with 10 samples or more the result is that of \<open>curve_fit\<close> on the
  gathered scores and win rates, from the initial guess \<open>(npv, npv / 6)\<close>. The
  buckets are the moves 3 to 119; when the loop completes, the fitted moves are those
  with at least 10 samples, and when every bucket has 9 samples or fewer the loop
  completes with no fitted move.
\<close>

theorem bucket_threshold:
  "(length (gather m (m + grouping) samples) \<le> 9 \<longrightarrow>
      fit_bucket curve_fit npv samples m = Inr None)
   \<and> (10 \<le> length (gather m (m + grouping) samples) \<longrightarrow>
      fit_bucket curve_fit npv samples m =
        (case curve_fit (map sx (gather m (m + grouping) samples))
                (map zwin (gather m (m + grouping) samples))
                (real_of_int npv, real_of_int npv / 6) of
           Inl e \<Rightarrow> Inl e
         | Inr (a, b) \<Rightarrow> Inr (Some (m, a, b))))
   \<and> gather m (m + grouping) samples = filter (\<lambda>s. sy s = m) samples
   \<and> set bucket_starts = {3..119}
   \<and> (\<forall>model. fit_loop curve_fit npv samples bucket_starts = Inr model \<longrightarrow>
        map fst model
          = filter (\<lambda>m. 10 \<le> length (filter (\<lambda>s. sy s = m) samples)) bucket_starts)
   \<and> ((\<forall>m\<in>set bucket_starts. length (filter (\<lambda>s. sy s = m) samples) \<le> 9) \<longrightarrow>
        fit_loop curve_fit npv samples bucket_starts = Inr [])"
proof -
  have "fit_loop curve_fit npv samples bucket_starts = Inr []"
    if "\<forall>m\<in>set bucket_starts. length (filter (\<lambda>s. sy s = m) samples) \<le> 9"
    using that by (intro fit_loop_all_skipped) (simp add: gather_move)
  moreover have "map fst model
          = filter (\<lambda>m. 10 \<le> length (filter (\<lambda>s. sy s = m) samples)) bucket_starts"
    if "fit_loop curve_fit npv samples bucket_starts = Inr model" for model
    using fit_loop_moves [OF that] by (simp add: gather_move)
  moreover have "set bucket_starts = {3..119}"
    unfolding bucket_starts_def by (rule set_upto)
  ultimately show ?thesis
    by (simp add: fit_bucket_def Let_def gather_move)
qed

lemma flat_samples_count:
  "length (filter (\<lambda>s. sy s = m') (flat_samples n m)) = (if m' = m then n else 0)"
  by (simp add: flat_samples_def filter_map o_def)

text \<open>
  C6 with exactly 9 and exactly 10 samples at move 5, against an optimiser that always
  raises and one that returns its initial guess.
\<close>

theorem bucket_threshold_witness:
  "fit_bucket (\<lambda>xdata ydata p0. Inl RuntimeError) 328 (flat_samples 9 5) 5 = Inr None
   \<and> fit_bucket (\<lambda>xdata ydata p0. Inl RuntimeError) 328 (flat_samples 10 5) 5 = Inl RuntimeError
   \<and> fit_bucket (\<lambda>xdata ydata p0. Inr p0) 328 (flat_samples 10 5) 5 = Inr (Some (5, 328, 328 / 6))
   \<and> fit_loop (\<lambda>xdata ydata p0. Inl RuntimeError) 328 (flat_samples 9 5) bucket_starts = Inr []"
  using bucket_threshold [of 5 "flat_samples 9 5" "\<lambda>xdata ydata p0. Inl RuntimeError" 328]
    bucket_threshold [of 5 "flat_samples 10 5" "\<lambda>xdata ydata p0. Inl RuntimeError" 328]
    bucket_threshold [of 5 "flat_samples 10 5" "\<lambda>xdata ydata p0. Inr p0" 328]
  by (simp add: flat_samples_count gather_move)

section \<open>What a bucket depends on\<close>

lemma at_move_counter_add:
  "at_move m (counter_add k v c)
     = (if snd k = m then counter_add k v (at_move m c) else at_move m c)"
  by (induction c) (auto simp: at_move_def)

lemma counter_get_at_move: "snd k = m \<Longrightarrow> counter_get (at_move m c) k = counter_get c k"
  by (induction c) (auto simp: at_move_def)

lemma counter_keys_at_move:
  "counter_keys (at_move m c) = filter (\<lambda>k. snd k = m) (counter_keys c)"
  by (simp add: at_move_def counter_keys_def filter_map o_def)

lemma tables_at_agg_step:
  "tables_at m (agg_step npv e t)
     = (if move_of e = m then agg_step npv e (tables_at m t) else tables_at m t)"
proof -
  obtain result move material score v where e: "e = ((result, move, material, score), v)"
    by (metis prod.exhaust)
  show ?thesis
    unfolding e by (simp add: tables_at_def move_of_def Let_def at_move_counter_add)
qed

lemma tables_at_fold:
  "tables_at m (fold (agg_step npv) inpdict t)
     = fold (agg_step npv) (filter (\<lambda>e. move_of e = m) inpdict) (tables_at m t)"
  by (induction inpdict arbitrary: t) (simp_all add: tables_at_agg_step)

lemma tables_at_aggregate:
  "tables_at m (aggregate npv inpdict) = aggregate npv (filter (\<lambda>e. move_of e = m) inpdict)"
  unfolding aggregate_def tables_at_fold
  by (simp add: tables_at_def empty_tables_def at_move_def)

lemma coords_tables_at: "coords (tables_at m t) = filter (\<lambda>k. snd k = m) (coords t)"
proof -
  let ?ks = "counter_keys (win t) @ counter_keys (draw t) @ counter_keys (loss t)"
  have "coords (tables_at m t) = sort (remdups (filter (\<lambda>k. snd k = m) ?ks))"
    by (simp add: coords_def tables_at_def counter_keys_at_move)
  also have "\<dots> = filter (\<lambda>k. snd k = m) (sort (remdups ?ks))"
    by (simp only: remdups_filter filter_sort)
  finally show ?thesis
    by (simp only: coords_def)
qed

lemma total_tables_at: "snd c = m \<Longrightarrow> total (tables_at m t) c = total t c"
  by (simp add: total_def tables_at_def counter_get_at_move)

lemma rate_tables_at: "snd c = m \<Longrightarrow> rate (tables_at m t) c = rate t c"
  by (simp add: rate_def total_tables_at) (simp add: tables_at_def counter_get_at_move)

lemma samples_of_tables_at:
  assumes "\<forall>c\<in>set (coords t). total t c \<noteq> 0"
  shows "samples_of (tables_at m t) = filter (\<lambda>s. sy s = m) (samples_of t)"
proof -
  have "filter (\<lambda>s. sy s = m) (samples_of t)
      = map (\<lambda>c. projr (rate t c)) (filter (\<lambda>c. sy (projr (rate t c)) = m) (coords t))"
    by (simp add: samples_of_def filter_map o_def)
  also have "filter (\<lambda>c. sy (projr (rate t c)) = m) (coords t)
      = filter (\<lambda>c. snd c = m) (coords t)"
    using assms by (intro filter_cong) (auto simp: rate_def)
  also have "map (\<lambda>c. projr (rate t c)) (filter (\<lambda>c. snd c = m) (coords t))
      = map (\<lambda>c. projr (rate (tables_at m t) c)) (filter (\<lambda>c. snd c = m) (coords t))"
    by (intro map_cong) (simp_all add: rate_tables_at)
  finally show ?thesis
    by (simp add: samples_of_def coords_tables_at)
qed

lemma rates_samples_of:
  "rates t = Inr ss \<Longrightarrow> ss = samples_of t \<and> (\<forall>c\<in>set (coords t). total t c \<noteq> 0)"
  using rate_loop_Inr [of t "coords t" ss] by (simp add: rates_def samples_of_def)

lemma gather_rates:
  assumes "rates (aggregate npv inpdict) = Inr ss"
  shows "gather m (m + grouping) ss
     = samples_of (aggregate npv (filter (\<lambda>e. move_of e = m) inpdict))"
proof -
  from assms have ss: "ss = samples_of (aggregate npv inpdict)"
    and nz: "\<forall>c\<in>set (coords (aggregate npv inpdict)). total (aggregate npv inpdict) c \<noteq> 0"
    using rates_samples_of by blast+
  show ?thesis
    unfolding ss gather_move samples_of_tables_at [OF nz, symmetric] tables_at_aggregate ..
qed

lemma fit_bucket_cong:
  "gather m (m + grouping) ss = gather m (m + grouping) ss' \<Longrightarrow>
     fit_bucket curve_fit npv ss m = fit_bucket curve_fit npv ss' m"
  by (simp add: fit_bucket_def Let_def)

lemma fit_loop_cong:
  "\<forall>m\<in>set ms. gather m (m + grouping) ss = gather m (m + grouping) ss' \<Longrightarrow>
     fit_loop curve_fit npv ss ms = fit_loop curve_fit npv ss' ms"
proof (induction ms)
  case Nil
  show ?case by simp
next
  case (Cons m ms)
  from Cons.prems have g: "gather m (m + grouping) ss = gather m (m + grouping) ss'"
    by simp
  have b: "fit_bucket curve_fit npv ss m = fit_bucket curve_fit npv ss' m"
    using g by (rule fit_bucket_cong)
  have l: "fit_loop curve_fit npv ss ms = fit_loop curve_fit npv ss' ms"
    using Cons.IH Cons.prems by simp
  show ?case
    by (simp only: fit_loop.simps b l)
qed

lemma bucket_starts_iff: "m \<in> set bucket_starts \<longleftrightarrow> 3 \<le> m \<and> m \<le> 119"
  by (simp only: bucket_starts_def set_upto atLeastAtMost_iff)

lemma bucket_not_unbucketed: "m \<in> set bucket_starts \<Longrightarrow> \<not> unbucketed m"
  unfolding bucket_starts_iff unbucketed_def by linarith

lemma filter_move_bucketed:
  assumes "\<not> unbucketed m"
  shows "filter (\<lambda>e. move_of e = m) (filter (\<lambda>e. \<not> unbucketed (move_of e)) inpdict)
     = filter (\<lambda>e. move_of e = m) inpdict"
proof -
  have "filter (\<lambda>e. move_of e = m) (filter (\<lambda>e. \<not> unbucketed (move_of e)) inpdict)
      = filter (\<lambda>e. \<not> unbucketed (move_of e) \<and> move_of e = m) inpdict"
    by (simp only: filter_filter)
  also have "\<dots> = filter (\<lambda>e. move_of e = m) inpdict"
  proof (rule filter_cong)
    show "inpdict = inpdict" ..
    show "(\<not> unbucketed (move_of e) \<and> move_of e = m) = (move_of e = m)" for e
      using assms by blast
  qed
  finally show ?thesis .
qed

text \<open>
  C10, as the code has it. An observation at move 0, 1, 2 or 120 with a score within the
  bound passes the filter, and its move starts no bucket. For two inputs that differ only
  in observations at these moves, and on both of which the rate loop completes (no
  coordinate has total 0), the whole run gives the same result: the same fitted
  parameters per move, the same two coefficient sets and the same normalisation, or the
  same error of a fit.
\<close>

theorem unbucketed_moves_do_not_interfere:
  "(unbucketed m \<and> \<bar>score\<bar> \<le> 400 \<longrightarrow> \<not> excluded score m \<and> m \<notin> set bucket_starts)
   \<and> (\<not> isl (rates (aggregate npv inp1)) \<and> \<not> isl (rates (aggregate npv inp2))
        \<and> filter (\<lambda>e. \<not> unbucketed (move_of e)) inp1
            = filter (\<lambda>e. \<not> unbucketed (move_of e)) inp2 \<longrightarrow>
        run curve_fit_win curve_fit_poly npv inp1 = run curve_fit_win curve_fit_poly npv inp2)"
proof -
  have a: "\<not> excluded score m \<and> m \<notin> set bucket_starts" if "unbucketed m" "\<bar>score\<bar> \<le> 400"
    using that unfolding unbucketed_def excluded_def bucket_starts_iff by linarith
  have b: "run curve_fit_win curve_fit_poly npv inp1 = run curve_fit_win curve_fit_poly npv inp2"
    if r1: "\<not> isl (rates (aggregate npv inp1))" and r2: "\<not> isl (rates (aggregate npv inp2))"
      and eq: "filter (\<lambda>e. \<not> unbucketed (move_of e)) inp1
            = filter (\<lambda>e. \<not> unbucketed (move_of e)) inp2"
  proof -
    from r1 obtain ss1 where ss1: "rates (aggregate npv inp1) = Inr ss1"
      by (cases "rates (aggregate npv inp1)") auto
    from r2 obtain ss2 where ss2: "rates (aggregate npv inp2) = Inr ss2"
      by (cases "rates (aggregate npv inp2)") auto
    have "gather m (m + grouping) ss1 = gather m (m + grouping) ss2"
      if "m \<in> set bucket_starts" for m
    proof -
      have nb: "\<not> unbucketed m"
        using that by (rule bucket_not_unbucketed)
      have "filter (\<lambda>e. move_of e = m) inp1 = filter (\<lambda>e. move_of e = m) inp2"
        using filter_move_bucketed [OF nb, of inp1] filter_move_bucketed [OF nb, of inp2] eq
        by simp
      then show ?thesis
        by (simp add: gather_rates [OF ss1] gather_rates [OF ss2])
    qed
    then have "fit_loop curve_fit_win npv ss1 bucket_starts
        = fit_loop curve_fit_win npv ss2 bucket_starts"
      by (intro fit_loop_cong) blast
    then show ?thesis
      by (simp add: run_def ss1 ss2)
  qed
  from a b show ?thesis by blast
qed

section \<open>Failures of the optimiser\<close>

lemma rates_complete:
  assumes "\<forall>e\<in>set inpdict. 1 \<le> snd e"
  shows "rates (aggregate npv inpdict) = Inr (samples_of (aggregate npv inpdict))"
proof -
  have "tables_lower 1 (aggregate npv inpdict)"
    using assms by (simp add: aggregate_lower)
  then have "\<forall>c\<in>set (coords (aggregate npv inpdict)). total (aggregate npv inpdict) c \<noteq> 0"
    using total_positive by fastforce
  then show ?thesis
    by (simp add: rates_def samples_of_def rate_loop_ok)
qed

lemma fit_bucket_rates:
  assumes "rates (aggregate npv inpdict) = Inr ss"
  shows "fit_bucket curve_fit npv ss m =
     (let d = samples_of (aggregate npv (filter (\<lambda>e. move_of e = m) inpdict)) in
      if length d < 10 then Inr None
      else
        case curve_fit (map sx d) (map zwin d) (real_of_int npv, real_of_int npv / 6) of
          Inl e \<Rightarrow> Inl e
        | Inr (a, b) \<Rightarrow> Inr (Some (m, a, b)))"
  by (simp add: fit_bucket_def Let_def gather_rates [OF assms])

lemma fit_loop_Inl:
  "fit_loop curve_fit npv ss ms = Inl e \<longleftrightarrow>
     (\<exists>before m after. ms = before @ m # after
        \<and> (\<forall>m'\<in>set before. \<not> isl (fit_bucket curve_fit npv ss m'))
        \<and> fit_bucket curve_fit npv ss m = Inl e)"
proof (induction ms)
  case Nil
  show ?case by simp
next
  case (Cons m0 ms)
  show ?case
  proof (cases "fit_bucket curve_fit npv ss m0")
    case (Inl e0)
    show ?thesis
    proof
      assume "fit_loop curve_fit npv ss (m0 # ms) = Inl e"
      with Inl have "fit_bucket curve_fit npv ss m0 = Inl e" by simp
      then have "m0 # ms = [] @ m0 # ms \<and> (\<forall>m'\<in>set []. \<not> isl (fit_bucket curve_fit npv ss m'))
          \<and> fit_bucket curve_fit npv ss m0 = Inl e"
        by simp
      then show "\<exists>before m after. m0 # ms = before @ m # after
          \<and> (\<forall>m'\<in>set before. \<not> isl (fit_bucket curve_fit npv ss m'))
          \<and> fit_bucket curve_fit npv ss m = Inl e"
        by blast
    next
      assume "\<exists>before m after. m0 # ms = before @ m # after
          \<and> (\<forall>m'\<in>set before. \<not> isl (fit_bucket curve_fit npv ss m'))
          \<and> fit_bucket curve_fit npv ss m = Inl e"
      then obtain before m after where split: "m0 # ms = before @ m # after"
        and ok: "\<forall>m'\<in>set before. \<not> isl (fit_bucket curve_fit npv ss m')"
        and bad: "fit_bucket curve_fit npv ss m = Inl e"
        by blast
      have "before = []"
      proof (cases before)
        case Nil
        then show ?thesis .
      next
        case (Cons b bs)
        with split have "b = m0" by simp
        with Cons ok Inl show ?thesis by simp
      qed
      with split bad have "fit_bucket curve_fit npv ss m0 = Inl e" by simp
      then show "fit_loop curve_fit npv ss (m0 # ms) = Inl e" by simp
    qed
  next
    case (Inr r)
    have "fit_loop curve_fit npv ss (m0 # ms) = Inl e \<longleftrightarrow> fit_loop curve_fit npv ss ms = Inl e"
      using Inr by (simp split: sum.splits)
    also have "\<dots> \<longleftrightarrow> (\<exists>before m after. ms = before @ m # after
        \<and> (\<forall>m'\<in>set before. \<not> isl (fit_bucket curve_fit npv ss m'))
        \<and> fit_bucket curve_fit npv ss m = Inl e)"
      by (rule Cons.IH)
    also have "\<dots> \<longleftrightarrow> (\<exists>before m after. m0 # ms = before @ m # after
        \<and> (\<forall>m'\<in>set before. \<not> isl (fit_bucket curve_fit npv ss m'))
        \<and> fit_bucket curve_fit npv ss m = Inl e)"
    proof
      assume "\<exists>before m after. ms = before @ m # after
        \<and> (\<forall>m'\<in>set before. \<not> isl (fit_bucket curve_fit npv ss m'))
        \<and> fit_bucket curve_fit npv ss m = Inl e"
      then obtain before m after where "ms = before @ m # after"
        and "\<forall>m'\<in>set before. \<not> isl (fit_bucket curve_fit npv ss m')"
        and "fit_bucket curve_fit npv ss m = Inl e"
        by blast
      with Inr have "m0 # ms = (m0 # before) @ m # after
          \<and> (\<forall>m'\<in>set (m0 # before). \<not> isl (fit_bucket curve_fit npv ss m'))
          \<and> fit_bucket curve_fit npv ss m = Inl e"
        by simp
      then show "\<exists>before m after. m0 # ms = before @ m # after
        \<and> (\<forall>m'\<in>set before. \<not> isl (fit_bucket curve_fit npv ss m'))
        \<and> fit_bucket curve_fit npv ss m = Inl e"
        by blast
    next
      assume "\<exists>before m after. m0 # ms = before @ m # after
        \<and> (\<forall>m'\<in>set before. \<not> isl (fit_bucket curve_fit npv ss m'))
        \<and> fit_bucket curve_fit npv ss m = Inl e"
      then obtain before m after where split: "m0 # ms = before @ m # after"
        and ok: "\<forall>m'\<in>set before. \<not> isl (fit_bucket curve_fit npv ss m')"
        and bad: "fit_bucket curve_fit npv ss m = Inl e"
        by blast
      from split bad Inr obtain bs where b: "before = m0 # bs"
        by (cases before) auto
      with split ok have "ms = bs @ m # after
          \<and> (\<forall>m'\<in>set bs. \<not> isl (fit_bucket curve_fit npv ss m'))"
        by simp
      with bad show "\<exists>before m after. ms = before @ m # after
        \<and> (\<forall>m'\<in>set before. \<not> isl (fit_bucket curve_fit npv ss m'))
        \<and> fit_bucket curve_fit npv ss m = Inl e"
        by blast
    qed
    finally show ?thesis .
  qed
qed

lemma fit_loop_Inr_buckets:
  "fit_loop curve_fit npv ss ms = Inr model \<Longrightarrow>
     \<forall>m\<in>set ms. \<not> isl (fit_bucket curve_fit npv ss m)"
  by (induction ms arbitrary: model) (auto split: sum.splits)

lemma fit_loop_no_failure:
  "\<forall>m\<in>set ms. \<not> isl (fit_bucket curve_fit npv ss m) \<Longrightarrow>
     \<not> isl (fit_loop curve_fit npv ss ms)"
  by (induction ms) (auto split: sum.splits)

lemma run_Inr_iff:
  "run curve_fit_win curve_fit_poly npv inpdict = Inr (model, popt_as, popt_bs, nz) \<longleftrightarrow>
     (\<exists>ss. rates (aggregate npv inpdict) = Inr ss
        \<and> fit_loop curve_fit_win npv ss bucket_starts = Inr model
        \<and> curve_fit_poly (map fst model) (map (fst \<circ> snd) model) = Inr popt_as
        \<and> curve_fit_poly (map fst model) (map (snd \<circ> snd) model) = Inr popt_bs
        \<and> nz = normalize popt_as popt_bs)"
  by (auto simp: run_def split: sum.splits)

lemma run_fit_failure:
  "rates (aggregate npv inpdict) = Inr ss \<Longrightarrow>
     fit_loop curve_fit_win npv ss bucket_starts = Inl e \<Longrightarrow>
     run curve_fit_win curve_fit_poly npv inpdict = Inl e"
  by (simp add: run_def)

text \<open>
  C9, as the code has it. Nothing catches what \<open>curve_fit\<close> raises: the loop over
  the buckets ends with the error of the first bucket whose fit raises, whatever follows
  it, and the run ends with that error. The loop completes only when no fit of any
  bucket raises. The script does not count the fitted buckets: the run returns exactly
  when the rate loop, the loop over the buckets and the two trend fits complete.
\<close>

theorem fit_failure_aborts_run:
  "((\<forall>m'\<in>set before. \<not> isl (fit_bucket curve_fit_win npv ss m'))
      \<and> fit_bucket curve_fit_win npv ss m = Inl e \<longrightarrow>
      fit_loop curve_fit_win npv ss (before @ m # after) = Inl e)
   \<and> (rates (aggregate npv inpdict) = Inr ss
      \<and> fit_loop curve_fit_win npv ss bucket_starts = Inl e \<longrightarrow>
      run curve_fit_win curve_fit_poly npv inpdict = Inl e)
   \<and> (\<forall>model. fit_loop curve_fit_win npv ss bucket_starts = Inr model \<longrightarrow>
        (\<forall>m\<in>set bucket_starts. \<not> isl (fit_bucket curve_fit_win npv ss m)))
   \<and> (run curve_fit_win curve_fit_poly npv inpdict = Inr (model, popt_as, popt_bs, nz) \<longleftrightarrow>
        (\<exists>ss. rates (aggregate npv inpdict) = Inr ss
           \<and> fit_loop curve_fit_win npv ss bucket_starts = Inr model
           \<and> curve_fit_poly (map fst model) (map (fst \<circ> snd) model) = Inr popt_as
           \<and> curve_fit_poly (map fst model) (map (snd \<circ> snd) model) = Inr popt_bs
           \<and> nz = normalize popt_as popt_bs))"
proof -
  have "fit_loop curve_fit_win npv ss (before @ m # after) = Inl e"
    if "\<forall>m'\<in>set before. \<not> isl (fit_bucket curve_fit_win npv ss m')"
      and "fit_bucket curve_fit_win npv ss m = Inl e"
    using that fit_loop_Inl [of curve_fit_win npv ss "before @ m # after" e] by blast
  moreover have "run curve_fit_win curve_fit_poly npv inpdict = Inl e"
    if "rates (aggregate npv inpdict) = Inr ss"
      and "fit_loop curve_fit_win npv ss bucket_starts = Inl e"
    using that by (rule run_fit_failure)
  moreover have "\<forall>m\<in>set bucket_starts. \<not> isl (fit_bucket curve_fit_win npv ss m)"
    if "fit_loop curve_fit_win npv ss bucket_starts = Inr model" for model
    using that by (rule fit_loop_Inr_buckets)
  ultimately show ?thesis
    using run_Inr_iff [of curve_fit_win curve_fit_poly npv inpdict model popt_as popt_bs nz]
    by blast
qed

text \<open>
  C9 with ten samples at move 5 and an optimiser that raises: the buckets 3 and 4 are
  skipped, the fit at 5 raises, and the loop over 3, 4, 5, 6 ends with that error.
\<close>

theorem fit_failure_aborts_run_witness:
  "fit_loop (\<lambda>xdata ydata p0. Inl RuntimeError) 328 (flat_samples 10 5) ([3, 4] @ 5 # [6])
     = Inl RuntimeError"
proof -
  have ok: "\<forall>m'\<in>set [3, 4].
      \<not> isl (fit_bucket (\<lambda>xdata ydata p0. Inl RuntimeError) 328 (flat_samples 10 5) m')"
    by (simp add: fit_bucket_def Let_def gather_move flat_samples_count)
  have bad: "fit_bucket (\<lambda>xdata ydata p0. Inl RuntimeError) 328 (flat_samples 10 5) 5
      = Inl RuntimeError"
    by (simp add: fit_bucket_def Let_def gather_move flat_samples_count)
  from ok bad show ?thesis
    using fit_failure_aborts_run [of "[3, 4]" "\<lambda>xdata ydata p0. Inl RuntimeError" 328
        "flat_samples 10 5" 5 RuntimeError "[6]"]
    by blast
qed

lemma demo_no_wins_positive: "\<forall>e\<in>set demo_input_no_wins. 1 \<le> snd e"
  by code_simp

lemma demo_no_wins_rates:
  "rates (aggregate 328 demo_input_no_wins)
     = Inr (samples_of (aggregate 328 demo_input_no_wins))"
  using demo_no_wins_positive by (rule rates_complete)

lemma demo_bucket_3:
  "filter (\<lambda>e. move_of e = 3) demo_input_no_wins = demo_bucket False 3
   \<and> length (samples_of (aggregate 328 (demo_bucket False 3))) = 10
   \<and> sum_list (map zwin (samples_of (aggregate 328 (demo_bucket False 3)))) = 0"
  by code_simp

lemma demo_bucket_4:
  "filter (\<lambda>e. move_of e = 4) demo_input_no_wins = demo_bucket True 4
   \<and> length (samples_of (aggregate 328 (demo_bucket True 4))) = 10
   \<and> sum_list (map zwin (samples_of (aggregate 328 (demo_bucket True 4)))) \<noteq> 0"
  by code_simp

lemma demo_bucket_5:
  "filter (\<lambda>e. move_of e = 5) demo_input_no_wins = demo_bucket True 5
   \<and> length (samples_of (aggregate 328 (demo_bucket True 5))) = 10
   \<and> sum_list (map zwin (samples_of (aggregate 328 (demo_bucket True 5)))) \<noteq> 0"
  by code_simp

lemma demo_bucket_6:
  "filter (\<lambda>e. move_of e = 6) demo_input_no_wins = demo_bucket True 6
   \<and> length (samples_of (aggregate 328 (demo_bucket True 6))) = 10
   \<and> sum_list (map zwin (samples_of (aggregate 328 (demo_bucket True 6)))) \<noteq> 0"
  by code_simp

lemma demo_bucket_7:
  "filter (\<lambda>e. move_of e = 7) demo_input_no_wins = demo_bucket True 7
   \<and> length (samples_of (aggregate 328 (demo_bucket True 7))) = 10
   \<and> sum_list (map zwin (samples_of (aggregate 328 (demo_bucket True 7)))) \<noteq> 0"
  by code_simp

text \<open>
  Against C9 as it is written: on the example input without wins at move 3 the fit of
  move 3 raises and the run ends with its error, although the four buckets 4 to 7 have
  ten samples each and their fits return.
\<close>

theorem one_failed_fit_is_fatal:
  "run failing_on_zero constant_polyfit 328 demo_input_no_wins = Inl RuntimeError
   \<and> fit_bucket failing_on_zero 328 (samples_of (aggregate 328 demo_input_no_wins)) 4
       = Inr (Some (4, 328, 328 / 6))
   \<and> fit_bucket failing_on_zero 328 (samples_of (aggregate 328 demo_input_no_wins)) 5
       = Inr (Some (5, 328, 328 / 6))
   \<and> fit_bucket failing_on_zero 328 (samples_of (aggregate 328 demo_input_no_wins)) 6
       = Inr (Some (6, 328, 328 / 6))
   \<and> fit_bucket failing_on_zero 328 (samples_of (aggregate 328 demo_input_no_wins)) 7
       = Inr (Some (7, 328, 328 / 6))"
proof -
  let ?ss = "samples_of (aggregate 328 demo_input_no_wins)"
  have b3: "fit_bucket failing_on_zero 328 ?ss 3 = Inl RuntimeError"
    using demo_bucket_3
    by (simp add: fit_bucket_rates [OF demo_no_wins_rates] failing_on_zero_def)
  have "bucket_starts = [] @ 3 # [4..119]"
    unfolding bucket_starts_def by (subst upto.simps) simp
  then have "fit_loop failing_on_zero 328 ?ss bucket_starts = Inl RuntimeError"
    using b3 fit_loop_Inl [of failing_on_zero 328 ?ss bucket_starts RuntimeError] by fastforce
  then have r: "run failing_on_zero constant_polyfit 328 demo_input_no_wins = Inl RuntimeError"
    using demo_no_wins_rates by (rule run_fit_failure [rotated])
  have b4: "fit_bucket failing_on_zero 328 ?ss 4 = Inr (Some (4, 328, 328 / 6))"
    using demo_bucket_4
    by (simp add: fit_bucket_rates [OF demo_no_wins_rates] failing_on_zero_def)
  have b5: "fit_bucket failing_on_zero 328 ?ss 5 = Inr (Some (5, 328, 328 / 6))"
    using demo_bucket_5
    by (simp add: fit_bucket_rates [OF demo_no_wins_rates] failing_on_zero_def)
  have b6: "fit_bucket failing_on_zero 328 ?ss 6 = Inr (Some (6, 328, 328 / 6))"
    using demo_bucket_6
    by (simp add: fit_bucket_rates [OF demo_no_wins_rates] failing_on_zero_def)
  have b7: "fit_bucket failing_on_zero 328 ?ss 7 = Inr (Some (7, 328, 328 / 6))"
    using demo_bucket_7
    by (simp add: fit_bucket_rates [OF demo_no_wins_rates] failing_on_zero_def)
  from r b4 b5 b6 b7 show ?thesis by simp
qed

subsection \<open>Examples for the moves outside every bucket\<close>

lemma run_completes:
  assumes "\<forall>e\<in>set inpdict. 1 \<le> snd e"
  shows "\<not> isl (run initial_guess_fit constant_polyfit npv inpdict)"
proof -
  let ?ss = "samples_of (aggregate npv inpdict)"
  have "\<forall>m\<in>set bucket_starts. \<not> isl (fit_bucket initial_guess_fit npv ?ss m)"
    by (simp add: fit_bucket_def Let_def initial_guess_fit_def)
  then have nf: "\<not> isl (fit_loop initial_guess_fit npv ?ss bucket_starts)"
    by (rule fit_loop_no_failure)
  obtain model where "fit_loop initial_guess_fit npv ?ss bucket_starts = Inr model"
    using nf by (cases "fit_loop initial_guess_fit npv ?ss bucket_starts") auto
  then show ?thesis
    by (simp add: run_def rates_complete [OF assms] constant_polyfit_def)
qed

lemma zero_count_aborts:
  assumes "filter (\<lambda>e. move_of e = 0) inpdict = []"
  shows "run curve_fit_win curve_fit_poly 328 (((''W'', 0, 0, 0), 0) # inpdict)
     = Inl ZeroDivisionError"
proof -
  let ?t = "aggregate 328 (((''W'', 0, 0, 0), 0) # inpdict)"
  have at: "tables_at 0 ?t = aggregate 328 [((''W'', 0, 0, 0), 0)]"
    using assms by (simp add: tables_at_aggregate move_of_def)
  have "coords (tables_at 0 ?t) = [(0, 0)]"
    unfolding at
    by (simp add: aggregate_def empty_tables_def excluded_def rescale_def coords_def
        counter_keys_def)
  then have "(0, 0) \<in> set (filter (\<lambda>k. snd k = 0) (coords ?t))"
    by (simp add: coords_tables_at [symmetric])
  then have mem: "(0, 0) \<in> set (coords ?t)"
    by simp
  have "total (tables_at 0 ?t) (0, 0) = 0"
    unfolding at
    by (simp add: aggregate_def empty_tables_def excluded_def rescale_def total_def)
  then have "total ?t (0, 0) = 0"
    by (simp add: total_tables_at)
  with mem have "rates ?t = Inl ZeroDivisionError"
    unfolding rates_def by (rule rate_loop_zero)
  then show ?thesis
    by (simp add: run_def)
qed

lemma demo_positive: "\<forall>e\<in>set demo_input. 1 \<le> snd e"
  by code_simp

lemma demo_move_0: "filter (\<lambda>e. move_of e = 0) demo_input = []"
  by code_simp

text \<open>
  Against C10 as it is written: the run completes on the example input, and with one
  more observation at move 0, of count 0, it ends with ZeroDivisionError at line 71.
\<close>

theorem zero_count_at_move_0_interferes:
  "unbucketed 0
   \<and> \<not> isl (run initial_guess_fit constant_polyfit 328 demo_input)
   \<and> run initial_guess_fit constant_polyfit 328 (((''W'', 0, 0, 0), 0) # demo_input)
       = Inl ZeroDivisionError"
  using run_completes [OF demo_positive, of 328] zero_count_aborts [OF demo_move_0]
  by (simp add: unbucketed_def)

text \<open>
  C10 on an input with one observation at move 5, and the same input with observations
  at the moves 0 and 120 added.
\<close>

theorem unbucketed_moves_do_not_interfere_witness:
  "run initial_guess_fit constant_polyfit 328 [((''W'', 5, 0, 0), 1)]
     = run initial_guess_fit constant_polyfit 328
         [((''L'', 0, 0, 100), 2), ((''W'', 5, 0, 0), 1), ((''D'', 120, 0, 0), 3)]
   \<and> \<not> excluded 400 120 \<and> 120 \<notin> set bucket_starts"
proof -
  have r1: "\<not> isl (rates (aggregate 328 [((''W'', 5, 0, 0), 1)]))"
    by (simp add: rates_complete)
  have r2: "\<not> isl (rates (aggregate 328
      [((''L'', 0, 0, 100), 2), ((''W'', 5, 0, 0), 1), ((''D'', 120, 0, 0), 3)]))"
    by (simp add: rates_complete)
  have eq: "filter (\<lambda>e. \<not> unbucketed (move_of e)) [((''W'', 5, 0, 0), 1)]
      = filter (\<lambda>e. \<not> unbucketed (move_of e))
          [((''L'', 0, 0, 100), 2), ((''W'', 5, 0, 0), 1), ((''D'', 120, 0, 0), 3)]"
    by (simp add: unbucketed_def move_of_def)
  have u: "unbucketed 120 \<and> \<bar>400 :: int\<bar> \<le> 400"
    by (simp add: unbucketed_def)
  from r1 r2 eq u show ?thesis
    using unbucketed_moves_do_not_interfere [of 120 400 328 "[((''W'', 5, 0, 0), 1)]"
        "[((''L'', 0, 0, 100), 2), ((''W'', 5, 0, 0), 1), ((''D'', 120, 0, 0), 3)]"
        initial_guess_fit constant_polyfit]
    by blast
qed

end
